theory Spec2Isabelle
  imports Main "HOL-Library.AList" "HOL-Library.Sublist"
begin

section \<open>JavaScript values\<close>

text \<open>
  The services keep untyped JavaScript objects at run time: a widget configuration is an
  object that is merged by object spread, and a dashboard configuration goes through
  \<^verbatim>\<open>JSON.stringify\<close> and \<^verbatim>\<open>JSON.parse\<close>. Such values are modelled by
  \<open>jsval\<close>. An object is the list of its own enumerable properties in enumeration
  order; numbers are integers (grid units, counters and settings; NaN and infinities are
  outside the model); a \<open>Date\<close> is represented by its ISO-8601 text; a function or
  class is opaque.
\<close>

datatype jsval =
    JUndefined
  | JNull
  | JBool bool
  | JNum int
  | JString string
  | JDate string
  | JFunction
  | JArray "jsval list"
  | JObject "(string \<times> jsval) list"

type_synonym jsobject = "(string \<times> jsval) list"

text \<open>Truthiness, as \<^verbatim>\<open>!v\<close> and \<^verbatim>\<open>if (v)\<close> read a value.\<close>

fun truthy :: "jsval \<Rightarrow> bool" where
  "truthy JUndefined = False"
| "truthy JNull = False"
| "truthy (JBool b) = b"
| "truthy (JNum n) = (n \<noteq> 0)"
| "truthy (JString s) = (s \<noteq> [])"
| "truthy (JDate s) = True"
| "truthy JFunction = True"
| "truthy (JArray es) = True"
| "truthy (JObject ps) = True"

text \<open>Property read \<^verbatim>\<open>o.k\<close> on an object: \<open>undefined\<close> when the key is absent.\<close>

definition getProp :: "jsobject \<Rightarrow> string \<Rightarrow> jsval" where
  "getProp ps k = (case map_of ps k of None \<Rightarrow> JUndefined | Some v \<Rightarrow> v)"

text \<open>
  Object spread: \<^verbatim>\<open>{...a, ...b}\<close> copies the properties of \<open>a\<close> into a fresh object and
  then those of \<open>b\<close>; a key that is already there keeps its place and takes the later
  value. \<open>objectSpread acc ps\<close> copies \<open>ps\<close> into \<open>acc\<close>. (Keys that are array
  indices, which JavaScript enumerates before all others, do not occur in widget
  configurations.)
\<close>

definition objectSpread :: "jsobject \<Rightarrow> jsobject \<Rightarrow> jsobject" where
  "objectSpread acc ps = fold (\<lambda>(k, v). AList.update k v) ps acc"

text \<open>\<^verbatim>\<open>xs.join(sep)\<close> on an array of strings.\<close>

fun join :: "string \<Rightarrow> string list \<Rightarrow> string" where
  "join sep [] = []"
| "join sep [s] = s"
| "join sep (s # t # ts) = s @ sep @ join sep (t # ts)"

text \<open>Decimal text of a natural number, as a template literal prints it.\<close>

definition digit :: "nat \<Rightarrow> char" where
  "digit d = (''0123456789'' ! d)"

fun decimal :: "nat \<Rightarrow> string" where
  "decimal n = (if n < 10 then [digit n] else decimal (n div 10) @ [digit (n mod 10)])"

declare decimal.simps [simp del]

text \<open>
  What a call does besides returning: it returns normally or throws
  \<^verbatim>\<open>new Error(message)\<close>. Inside a template literal an \<open>Error\<close> prints as
  \<^verbatim>\<open>Error: message\<close>.
\<close>

datatype outcome = Returns | Throws string

definition errorText :: "string \<Rightarrow> string" where
  "errorText msg = ''Error: '' @ msg"


section \<open>Widget registry\<close>

text \<open>
  A component class is characterised by what its instances do when the orchestrator calls
  them: the optional hooks \<open>onInit\<close> and \<open>onDestroy\<close> (absent, returning or
  throwing) and the \<open>destroy\<close> of the component reference.
\<close>

record ComponentClass =
  onInit :: "outcome option"
  onDestroy :: "outcome option"
  destroy :: outcome

text \<open>
  \<open>WidgetDefinition\<close> of widget.interface.ts. Field \<open>type\<close> is \<open>def_type\<close>, and so
  on for the other fields. \<open>def_loadComponent\<close> is the lazy loader, given by what its
  promise settles to: a rejection message or the component class.
\<close>

record WidgetDefinition =
  def_type :: string
  def_name :: string
  def_description :: string
  def_component :: "ComponentClass option"
  def_category :: string
  def_defaultConfig :: jsobject
  def_tags :: "string list option"
  def_dependencies :: "string list option"
  def_lazy :: bool
  def_loadComponent :: "(string + ComponentClass) option"

text \<open>
  The two maps of \<open>WidgetRegistryService\<close>. A JavaScript \<open>Map\<close> keeps insertion
  order and \<open>set\<close> on a present key replaces the value in place, which is
  \<open>AList.update\<close>.
\<close>

record WidgetRegistry =
  widgets :: "(string \<times> WidgetDefinition) list"
  categories :: "(string \<times> WidgetDefinition list) list"

definition emptyRegistry :: WidgetRegistry where
  "emptyRegistry = \<lparr>widgets = [], categories = []\<rparr>"

definition validateDefinition :: "WidgetDefinition \<Rightarrow> outcome" where
  "validateDefinition d =
     (if def_type d = [] then Throws ''Widget definition must have a type''
      else if def_name d = [] then Throws ''Widget definition must have a name''
      else if def_component d = None \<and> (\<not> def_lazy d \<or> def_loadComponent d = None)
        then Throws ''Widget definition must have a component or lazy loading function''
      else if def_category d = [] then Throws ''Widget definition must have a category''
      else Returns)"

fun replaceFirst :: "('a \<Rightarrow> bool) \<Rightarrow> 'a \<Rightarrow> 'a list \<Rightarrow> 'a list" where
  "replaceFirst P new [] = []"
| "replaceFirst P new (a # as) = (if P a then new # as else a # replaceFirst P new as)"

definition updateCategoryMapping ::
  "WidgetDefinition \<Rightarrow> (string \<times> WidgetDefinition list) list
    \<Rightarrow> (string \<times> WidgetDefinition list) list" where
  "updateCategoryMapping d cats =
     (let categoryWidgets = (case map_of cats (def_category d) of None \<Rightarrow> [] | Some ws \<Rightarrow> ws);
          same = (\<lambda>w. def_type w = def_type d)
      in AList.update (def_category d)
           (if list_ex same categoryWidgets then replaceFirst same d categoryWidgets
            else categoryWidgets @ [d])
           cats)"

text \<open>\<open>register\<close>: the result is the thrown message or the registry after the call.\<close>

definition register :: "WidgetDefinition \<Rightarrow> WidgetRegistry \<Rightarrow> string + WidgetRegistry" where
  "register d r =
     (case validateDefinition d of
        Throws msg \<Rightarrow> Inl msg
      | Returns \<Rightarrow>
          Inr (r\<lparr>widgets := AList.update (def_type d) d (widgets r),
                 categories := updateCategoryMapping d (categories r)\<rparr>))"

definition getWidget :: "WidgetRegistry \<Rightarrow> string \<Rightarrow> WidgetDefinition option" where
  "getWidget r t = map_of (widgets r) t"

definition hasWidget :: "WidgetRegistry \<Rightarrow> string \<Rightarrow> bool" where
  "hasWidget r t = (map_of (widgets r) t \<noteq> None)"

record DependencyCheck =
  satisfied :: bool
  missing :: "string list"

definition checkDependencies :: "WidgetRegistry \<Rightarrow> string \<Rightarrow> DependencyCheck" where
  "checkDependencies r t =
     (case getWidget r t of
        None \<Rightarrow> \<lparr>satisfied = True, missing = []\<rparr>
      | Some definition \<Rightarrow>
          (case def_dependencies definition of
             None \<Rightarrow> \<lparr>satisfied = True, missing = []\<rparr>
           | Some deps \<Rightarrow>
               (let missing = filter (\<lambda>dep. \<not> hasWidget r dep) deps
                in \<lparr>satisfied = (length missing = 0), missing = missing\<rparr>)))"

text \<open>
  \<open>registry.loadComponent(type)\<close>: the lazy loader runs when the definition is lazy and
  has one (the service's \<open>lazyLoading\<close> option is the constant \<open>true\<close>); otherwise the
  direct component reference is returned, which may be undefined.
\<close>

definition loadComponent :: "WidgetRegistry \<Rightarrow> string \<Rightarrow> string + ComponentClass option" where
  "loadComponent r t =
     (case getWidget r t of
        None \<Rightarrow> Inl (''Widget type '' @ [CHR 0x27] @ t @ [CHR 0x27] @ '' not found'')
      | Some definition \<Rightarrow>
          (case (def_lazy definition, def_loadComponent definition) of
             (True, Some (Inl rejection)) \<Rightarrow>
               Inl (''Failed to load widget component '' @ [CHR 0x27] @ t @ [CHR 0x27] @ '': ''
                    @ errorText rejection)
           | (True, Some (Inr cls)) \<Rightarrow> Inr (Some cls)
           | _ \<Rightarrow> Inr (def_component definition)))"


section \<open>Widget orchestrator\<close>

datatype WidgetState = INITIALIZING | LOADING | LOADED | ERROR | DESTROYED

record WidgetError =
  err_code :: string
  err_message :: string
  err_timestamp :: nat
  err_recoverable :: bool

text \<open>
  \<open>WidgetInstance\<close> of widget.interface.ts. The configuration is the object the
  spread in \<open>createWidget\<close> builds; timestamps are milliseconds.
\<close>

record WidgetInstance =
  inst_id :: string
  inst_definition :: WidgetDefinition
  inst_config :: jsobject
  inst_data :: jsval
  inst_state :: WidgetState
  inst_createdAt :: nat
  inst_updatedAt :: nat
  inst_error :: "WidgetError option"

text \<open>An rxjs subscription, by what its \<open>unsubscribe\<close> does.\<close>

record Subscription =
  unsubscribe :: outcome

text \<open>
  A data provider: \<open>prov_getData ds\<close> is what \<open>getData(ds).subscribe(...)\<close> does at
  once, a thrown message or the subscription it hands back.
\<close>

record WidgetDataProvider =
  prov_name :: string
  prov_supports :: "jsval \<Rightarrow> bool"
  prov_getData :: "jsval \<Rightarrow> string + Subscription"

text \<open>The mount point handed in by the rendering layer.\<close>

datatype ViewContainerRef = ViewContainerRef

text \<open>
  The state of \<open>WidgetOrchestratorService\<close>: its four maps, the current value of
  \<open>instancesSubject\<close> and what \<open>errorSubject\<close> has emitted so far. A component
  reference is represented by the class of the component it holds.
\<close>

record Orchestrator =
  widgetRegistry :: WidgetRegistry
  instances :: "(string \<times> WidgetInstance) list"
  componentRefs :: "(string \<times> ComponentClass) list"
  dataProviders :: "(string \<times> WidgetDataProvider) list"
  subscriptions :: "(string \<times> Subscription) list"
  instancesSubject :: "WidgetInstance list"
  errorSubject :: "(string \<times> WidgetError) list"

definition newOrchestrator :: "WidgetRegistry \<Rightarrow> Orchestrator" where
  "newOrchestrator r =
     \<lparr>widgetRegistry = r, instances = [], componentRefs = [], dataProviders = [],
      subscriptions = [], instancesSubject = [], errorSubject = []\<rparr>"

definition getAllWidgets :: "Orchestrator \<Rightarrow> WidgetInstance list" where
  "getAllWidgets s = map snd (instances s)"

definition notifyInstancesChange :: "Orchestrator \<Rightarrow> Orchestrator" where
  "notifyInstancesChange s = s\<lparr>instancesSubject := getAllWidgets s\<rparr>"

text \<open>
  Every \<open>new Date()\<close> and \<open>Date.now()\<close> of one call reads the clock argument
  \<open>now\<close>; \<open>Math.random().toString(36).substr(2, 9)\<close> is the argument \<open>random\<close>.
\<close>

definition updateInstanceState :: "nat \<Rightarrow> string \<Rightarrow> WidgetState \<Rightarrow> Orchestrator \<Rightarrow> Orchestrator" where
  "updateInstanceState now instanceId st s =
     (case map_of (instances s) instanceId of
        None \<Rightarrow> s
      | Some instance \<Rightarrow>
          s\<lparr>instances :=
               AList.update instanceId (instance\<lparr>inst_state := st, inst_updatedAt := now\<rparr>)
                 (instances s)\<rparr>)"

definition handleWidgetError :: "nat \<Rightarrow> string \<Rightarrow> WidgetError \<Rightarrow> Orchestrator \<Rightarrow> Orchestrator" where
  "handleWidgetError now instanceId err s =
     (let s1 = (case map_of (instances s) instanceId of
                  None \<Rightarrow> s
                | Some instance \<Rightarrow>
                    s\<lparr>instances :=
                         AList.update instanceId
                           (instance\<lparr>inst_error := Some err, inst_state := ERROR,
                                      inst_updatedAt := now\<rparr>)
                           (instances s)\<rparr>)
      in notifyInstancesChange (s1\<lparr>errorSubject := errorSubject s1 @ [(instanceId, err)]\<rparr>))"

definition generateInstanceId :: "string \<Rightarrow> nat \<Rightarrow> string \<Rightarrow> string" where
  "generateInstanceId t timestamp random = t @ ''_'' @ decimal timestamp @ ''_'' @ random"

text \<open>
  \<open>container.createComponent(componentType)\<close> instantiates the class; with an undefined
  component type the framework throws.
\<close>

definition createComponent :: "ViewContainerRef \<Rightarrow> ComponentClass option \<Rightarrow> string + ComponentClass" where
  "createComponent container componentType =
     (case componentType of
        None \<Rightarrow> Inl ''component type is undefined''
      | Some cls \<Rightarrow> Inr cls)"

definition findDataProvider ::
  "(string \<times> WidgetDataProvider) list \<Rightarrow> jsval \<Rightarrow> WidgetDataProvider option" where
  "findDataProvider providers dataSource =
     find (\<lambda>provider. prov_supports provider dataSource) (map snd providers)"

text \<open>
  The text of \<open>dataSource.type\<close> in the message of \<open>setupDataBinding\<close>; the interface
  types it as one of four strings.
\<close>

definition dataSourceTypeText :: "jsval \<Rightarrow> string" where
  "dataSourceTypeText dataSource =
     (case dataSource of
        JObject ps \<Rightarrow> (case getProp ps ''type'' of JString t \<Rightarrow> t | _ \<Rightarrow> ''undefined'')
      | _ \<Rightarrow> ''undefined'')"

definition setupDataBinding :: "WidgetInstance \<Rightarrow> Orchestrator \<Rightarrow> string + Orchestrator" where
  "setupDataBinding instance s =
     (let dataSource = getProp (inst_config instance) ''dataSource'' in
      if \<not> truthy dataSource then Inr s
      else
        (case findDataProvider (dataProviders s) dataSource of
           None \<Rightarrow> Inl (''No data provider found for type: '' @ dataSourceTypeText dataSource)
         | Some provider \<Rightarrow>
             (case prov_getData provider dataSource of
                Inl msg \<Rightarrow> Inl (''Failed to setup data binding: '' @ errorText msg)
              | Inr subscription \<Rightarrow>
                  Inr (s\<lparr>subscriptions :=
                          AList.update (inst_id instance) subscription (subscriptions s)\<rparr>))))"

text \<open>
  \<open>loadWidgetComponent\<close>: the result is the message of the error it rethrows, if any,
  and the state it leaves. The rebinding of the component's \<open>emit\<close> and
  \<open>onConfigChange\<close> members changes no table and is not represented.
\<close>

definition loadWidgetComponent ::
  "nat \<Rightarrow> WidgetInstance \<Rightarrow> ViewContainerRef \<Rightarrow> Orchestrator \<Rightarrow> string option \<times> Orchestrator" where
  "loadWidgetComponent now instance container s =
     (let s1 = updateInstanceState now (inst_id instance) LOADING s;
          attempt =
            (case loadComponent (widgetRegistry s1) (def_type (inst_definition instance)) of
               Inl msg \<Rightarrow> Inl (msg, s1)
             | Inr componentType \<Rightarrow>
                 (case createComponent container componentType of
                    Inl msg \<Rightarrow> Inl (msg, s1)
                  | Inr component \<Rightarrow>
                      (case onInit component of
                         Some (Throws msg) \<Rightarrow> Inl (msg, s1)
                       | _ \<Rightarrow>
                           (let s2 = s1\<lparr>componentRefs :=
                                         AList.update (inst_id instance) component
                                           (componentRefs s1)\<rparr>
                            in case setupDataBinding instance s2 of
                                 Inl msg \<Rightarrow> Inl (msg, s2)
                               | Inr s3 \<Rightarrow> Inr s3))))
      in case attempt of
           Inr s3 \<Rightarrow> (None, updateInstanceState now (inst_id instance) LOADED s3)
         | Inl (msg, s') \<Rightarrow>
             (Some msg,
              handleWidgetError now (inst_id instance)
                \<lparr>err_code = ''LOAD_FAILED'',
                 err_message = ''Failed to load widget component: '' @ errorText msg,
                 err_timestamp = now, err_recoverable = True\<rparr> s'))"

text \<open>
  \<open>createWidget(type, config, container?)\<close>: the result is the message of the error
  thrown to the caller, or the instance. The configuration is
  \<^verbatim>\<open>{...definition.defaultConfig, ...config, type}\<close>.
\<close>

definition mergeConfig :: "jsobject \<Rightarrow> jsobject \<Rightarrow> string \<Rightarrow> jsobject" where
  "mergeConfig defaultConfig config t =
     AList.update ''type'' (JString t) (objectSpread (objectSpread [] defaultConfig) config)"

definition createWidget ::
  "nat \<Rightarrow> string \<Rightarrow> string \<Rightarrow> jsobject \<Rightarrow> ViewContainerRef option \<Rightarrow> Orchestrator
    \<Rightarrow> (string + WidgetInstance) \<times> Orchestrator" where
  "createWidget now random t config container s =
     (let attempt =
            (case getWidget (widgetRegistry s) t of
               None \<Rightarrow> Inl (''Widget type '' @ [CHR 0x27] @ t @ [CHR 0x27] @ '' not found'', s)
             | Some definition \<Rightarrow>
                 (let depCheck = checkDependencies (widgetRegistry s) t in
                  if \<not> satisfied depCheck
                  then Inl (''Missing widget dependencies: '' @ join '', '' (missing depCheck), s)
                  else
                    (let instanceId = generateInstanceId t now random;
                         widgetConfig = mergeConfig (def_defaultConfig definition) config t;
                         instance =
                           \<lparr>inst_id = instanceId, inst_definition = definition,
                            inst_config = widgetConfig, inst_data = JUndefined,
                            inst_state = INITIALIZING, inst_createdAt = now,
                            inst_updatedAt = now, inst_error = None\<rparr>;
                         s1 = s\<lparr>instances := AList.update instanceId instance (instances s)\<rparr>;
                         loaded = (case container of
                                     None \<Rightarrow> (None, s1)
                                   | Some c \<Rightarrow> loadWidgetComponent now instance c s1)
                     in case loaded of
                          (Some msg, s2) \<Rightarrow> Inl (msg, s2)
                        | (None, s2) \<Rightarrow>
                            Inr (instance\<lparr>inst_state := LOADED\<rparr>,
                                 notifyInstancesChange
                                   (updateInstanceState now instanceId LOADED s2)))))
      in case attempt of
           Inr (instance, s') \<Rightarrow> (Inr instance, s')
         | Inl (msg, s') \<Rightarrow>
             (Inl msg,
              s'\<lparr>errorSubject := errorSubject s' @
                    [([], \<lparr>err_code = ''CREATION_FAILED'',
                           err_message = ''Failed to create widget: '' @ errorText msg,
                           err_timestamp = now, err_recoverable = False\<rparr>)]\<rparr>))"

text \<open>
  \<open>destroyWidget(instanceId)\<close>. Whatever is thrown inside the \<open>try\<close> block is caught:
  the call then records \<open>DESTROY_FAILED\<close> and returns false, with the tables as they
  were when the exception was thrown. The two clean-up steps of the \<open>try\<close> block are
  \<open>cleanUpComponent\<close> and \<open>cleanUpSubscription\<close>; each gives the thrown message and
  the state at the throw, or the state after the step.
\<close>

definition cleanUpComponent :: "string \<Rightarrow> Orchestrator \<Rightarrow> (string \<times> Orchestrator) + Orchestrator" where
  "cleanUpComponent instanceId s =
     (case map_of (componentRefs s) instanceId of
        None \<Rightarrow> Inr s
      | Some component \<Rightarrow>
          (case onDestroy component of
             Some (Throws msg) \<Rightarrow> Inl (msg, s)
           | _ \<Rightarrow>
               (case destroy component of
                  Throws msg \<Rightarrow> Inl (msg, s)
                | Returns \<Rightarrow>
                    Inr (s\<lparr>componentRefs := AList.delete instanceId (componentRefs s)\<rparr>))))"

definition cleanUpSubscription :: "string \<Rightarrow> Orchestrator \<Rightarrow> (string \<times> Orchestrator) + Orchestrator" where
  "cleanUpSubscription instanceId s =
     (case map_of (subscriptions s) instanceId of
        None \<Rightarrow> Inr s
      | Some subscription \<Rightarrow>
          (case unsubscribe subscription of
             Throws msg \<Rightarrow> Inl (msg, s)
           | Returns \<Rightarrow>
               Inr (s\<lparr>subscriptions := AList.delete instanceId (subscriptions s)\<rparr>)))"

definition destroyFailed :: "nat \<Rightarrow> string \<Rightarrow> WidgetError" where
  "destroyFailed now msg =
     \<lparr>err_code = ''DESTROY_FAILED'',
      err_message = ''Failed to destroy widget: '' @ errorText msg,
      err_timestamp = now, err_recoverable = False\<rparr>"

definition destroyWidget :: "nat \<Rightarrow> string \<Rightarrow> Orchestrator \<Rightarrow> bool \<times> Orchestrator" where
  "destroyWidget now instanceId s =
     (case map_of (instances s) instanceId of
        None \<Rightarrow> (False, s)
      | Some instance \<Rightarrow>
          (case cleanUpComponent instanceId s of
             Inl (msg, s') \<Rightarrow> (False, handleWidgetError now instanceId (destroyFailed now msg) s')
           | Inr s1 \<Rightarrow>
               (case cleanUpSubscription instanceId s1 of
                  Inl (msg, s') \<Rightarrow>
                    (False, handleWidgetError now instanceId (destroyFailed now msg) s')
                | Inr s2 \<Rightarrow>
                    (let s3 = updateInstanceState now instanceId DESTROYED s2
                     in (True,
                         notifyInstancesChange
                           (s3\<lparr>instances := AList.delete instanceId (instances s3)\<rparr>))))))"


section \<open>Example widgets\<close>

text \<open>Concrete definitions and registries on which the theorems below are exercised.\<close>

definition quietClass :: ComponentClass where
  "quietClass = \<lparr>onInit = Some Returns, onDestroy = Some Returns, destroy = Returns\<rparr>"

definition brokenClass :: ComponentClass where
  "brokenClass =
     \<lparr>onInit = Some Returns, onDestroy = Some (Throws ''teardown failed''), destroy = Returns\<rparr>"

definition todoDefinition :: WidgetDefinition where
  "todoDefinition =
     \<lparr>def_type = ''todo'', def_name = ''Todo'', def_description = ''Todo list'',
      def_component = Some quietClass, def_category = ''productivity'',
      def_defaultConfig =
        [(''title'', JString ''Todo''),
         (''layout'', JObject [(''cols'', JNum 2), (''rows'', JNum 2), (''x'', JNum 1)]),
         (''settings'', JObject [(''showDone'', JBool True)])],
      def_tags = None, def_dependencies = None, def_lazy = False,
      def_loadComponent = None\<rparr>"

definition graphDefinition :: WidgetDefinition where
  "graphDefinition =
     \<lparr>def_type = ''graph'', def_name = ''Graph'', def_description = ''Chart'',
      def_component = Some brokenClass, def_category = ''charts'',
      def_defaultConfig = [(''title'', JString ''Graph'')],
      def_tags = None, def_dependencies = Some [''todo'', ''missing-type'', ''legend''],
      def_lazy = False, def_loadComponent = None\<rparr>"

definition fragileDefinition :: WidgetDefinition where
  "fragileDefinition =
     \<lparr>def_type = ''fragile'', def_name = ''Fragile'', def_description = ''Throws on teardown'',
      def_component = Some brokenClass, def_category = ''charts'',
      def_defaultConfig = [(''title'', JString ''Fragile'')],
      def_tags = None, def_dependencies = Some [''todo''],
      def_lazy = False, def_loadComponent = None\<rparr>"

definition exampleRegistry :: WidgetRegistry where
  "exampleRegistry =
     (case register todoDefinition emptyRegistry of
        Inl msg \<Rightarrow> emptyRegistry
      | Inr r1 \<Rightarrow>
          (case register graphDefinition r1 of
             Inl msg \<Rightarrow> r1
           | Inr r2 \<Rightarrow>
               (case register fragileDefinition r2 of Inl msg \<Rightarrow> r2 | Inr r3 \<Rightarrow> r3)))"

lemma exampleRegistry_widgets:
  "widgets exampleRegistry =
     [(''todo'', todoDefinition), (''graph'', graphDefinition), (''fragile'', fragileDefinition)]"
  by (simp add: exampleRegistry_def register_def validateDefinition_def emptyRegistry_def
      todoDefinition_def graphDefinition_def fragileDefinition_def quietClass_def brokenClass_def)


section \<open>Registry: dependency check\<close>

text \<open>
  C10. \<open>checkDependencies(type)\<close> for a type that is not registered returns
  \<open>{satisfied: true, missing: []}\<close>, the same result as for any registered definition
  that declares no dependencies; it does not fail and does not report the type itself
  as missing.
\<close>

theorem checkDependencies_unregistered:
  "getWidget r t = None \<Longrightarrow>
     checkDependencies r t = \<lparr>satisfied = True, missing = []\<rparr> \<and>
     (\<forall>u d. getWidget r u = Some d \<and> def_dependencies d = None
        \<longrightarrow> checkDependencies r u = checkDependencies r t)"
  by (simp add: checkDependencies_def)

theorem checkDependencies_unregistered_witness:
  "getWidget exampleRegistry ''ghost'' = None \<and>
   checkDependencies exampleRegistry ''ghost'' = \<lparr>satisfied = True, missing = []\<rparr> \<and>
   getWidget exampleRegistry ''todo'' = Some todoDefinition \<and>
   def_dependencies todoDefinition = None \<and>
   checkDependencies exampleRegistry ''todo'' = checkDependencies exampleRegistry ''ghost''"
proof -
  have absent: "getWidget exampleRegistry ''ghost'' = None"
    by (simp add: getWidget_def exampleRegistry_widgets)
  have present: "getWidget exampleRegistry ''todo'' = Some todoDefinition"
    by (simp add: getWidget_def exampleRegistry_widgets)
  have nodeps: "def_dependencies todoDefinition = None"
    by (simp add: todoDefinition_def)
  from checkDependencies_unregistered [OF absent] present nodeps absent
  show ?thesis by blast
qed


section \<open>Orchestrator: creation with missing dependencies\<close>

lemma join_names_each: "m \<in> set ms \<Longrightarrow> sublist m (join sep ms)"
proof (induction sep ms rule: join.induct)
  case (1 sep)
  then show ?case by simp
next
  case (2 sep s)
  then show ?case by simp
next
  case (3 sep s t ts)
  show ?case
  proof (cases "m = s")
    case True
    then show ?thesis by simp
  next
    case False
    with 3 have "sublist m (join sep (t # ts))" by simp
    then obtain ps ss where "join sep (t # ts) = ps @ m @ ss"
      by (auto simp: sublist_def)
    then have "join sep (s # t # ts) = (s @ sep @ ps) @ m @ ss" by simp
    then show ?thesis unfolding sublist_def by blast
  qed
qed

text \<open>
  C6. When the definition registered for the type declares a dependency that is not
  registered, \<open>createWidget\<close> fails; the error names each missing dependency type (the
  message is the fixed prefix followed by the missing types joined by a comma, so each
  of them occurs in it), and the instance table, hence \<open>getAllWidgets()\<close>, is what it
  was before the call.
\<close>

theorem createWidget_missing_dependencies:
  assumes "getWidget (widgetRegistry s) t = Some d"
    and "def_dependencies d = Some deps"
    and "dep \<in> set deps"
    and "\<not> hasWidget (widgetRegistry s) dep"
  shows "\<exists>msg. fst (createWidget now random t config container s) = Inl msg \<and>
           msg = ''Missing widget dependencies: '' @
                   join '', '' (filter (\<lambda>x. \<not> hasWidget (widgetRegistry s) x) deps) \<and>
           (\<forall>x \<in> set deps. \<not> hasWidget (widgetRegistry s) x \<longrightarrow> sublist x msg) \<and>
           instances (snd (createWidget now random t config container s)) = instances s \<and>
           getAllWidgets (snd (createWidget now random t config container s)) = getAllWidgets s"
proof -
  let ?missing = "filter (\<lambda>x. \<not> hasWidget (widgetRegistry s) x) deps"
  have dc: "checkDependencies (widgetRegistry s) t = \<lparr>satisfied = False, missing = ?missing\<rparr>"
    using assms by (auto simp: checkDependencies_def filter_empty_conv)
  have res: "createWidget now random t config container s =
      (Inl (''Missing widget dependencies: '' @ join '', '' ?missing),
       s\<lparr>errorSubject := errorSubject s @
            [([], \<lparr>err_code = ''CREATION_FAILED'',
                   err_message = ''Failed to create widget: '' @
                     errorText (''Missing widget dependencies: '' @ join '', '' ?missing),
                   err_timestamp = now, err_recoverable = False\<rparr>)]\<rparr>)"
    using assms(1) by (simp add: createWidget_def dc)
  have each: "\<forall>x \<in> set deps. \<not> hasWidget (widgetRegistry s) x \<longrightarrow>
      sublist x (''Missing widget dependencies: '' @ join '', '' ?missing)"
  proof (intro ballI impI)
    fix x assume "x \<in> set deps" "\<not> hasWidget (widgetRegistry s) x"
    then have "x \<in> set ?missing" by simp
    then have "sublist x (join '', '' ?missing)" by (rule join_names_each)
    then show "sublist x (''Missing widget dependencies: '' @ join '', '' ?missing)"
      by (metis sublist_append)
  qed
  show ?thesis
    using each by (simp add: res getAllWidgets_def)
qed

theorem createWidget_missing_dependencies_witness:
  "fst (createWidget 1700000000000 ''k3x9q2m1z'' ''graph'' [] None (newOrchestrator exampleRegistry))
     = Inl ''Missing widget dependencies: missing-type, legend'' \<and>
   sublist ''missing-type'' ''Missing widget dependencies: missing-type, legend'' \<and>
   sublist ''legend'' ''Missing widget dependencies: missing-type, legend'' \<and>
   getAllWidgets (snd (createWidget 1700000000000 ''k3x9q2m1z'' ''graph'' [] None
                         (newOrchestrator exampleRegistry))) = []"
proof -
  let ?s = "newOrchestrator exampleRegistry"
  have reg: "widgetRegistry ?s = exampleRegistry" by (simp add: newOrchestrator_def)
  have a1: "getWidget (widgetRegistry ?s) ''graph'' = Some graphDefinition"
    by (simp add: reg getWidget_def exampleRegistry_widgets)
  have a2: "def_dependencies graphDefinition = Some [''todo'', ''missing-type'', ''legend'']"
    by (simp add: graphDefinition_def)
  have a3: "''legend'' \<in> set [''todo'', ''missing-type'', ''legend'']" by simp
  have a4: "\<not> hasWidget (widgetRegistry ?s) ''legend''"
    by (simp add: reg hasWidget_def exampleRegistry_widgets)
  have missing: "filter (\<lambda>x. \<not> hasWidget (widgetRegistry ?s) x) [''todo'', ''missing-type'', ''legend'']
      = [''missing-type'', ''legend'']"
    by (simp add: reg hasWidget_def exampleRegistry_widgets)
  have empty: "getAllWidgets ?s = []" by (simp add: getAllWidgets_def newOrchestrator_def)
  from createWidget_missing_dependencies [OF a1 a2 a3 a4,
      of 1700000000000 "''k3x9q2m1z''" "[]" None]
  show ?thesis
    unfolding missing empty
    by (auto simp: hasWidget_def reg exampleRegistry_widgets)
qed


section \<open>Orchestrator: configuration of a created widget\<close>

text \<open>
  The merge the specification describes, for comparison with \<open>mergeConfig\<close>: a deep
  merge in which two objects are merged key by key at every nesting level and otherwise
  the override wins; the type is then forced as in the code.
\<close>

fun deepMerge :: "jsval \<Rightarrow> jsval \<Rightarrow> jsval"
  and deepMergeProps :: "jsobject \<Rightarrow> jsobject \<Rightarrow> jsobject" where
  "deepMerge (JObject a) (JObject b) =
     JObject (deepMergeProps a b @ filter (\<lambda>(k, v). map_of a k = None) b)"
| "deepMerge a b = b"
| "deepMergeProps [] b = []"
| "deepMergeProps ((k, v) # ps) b =
     (k, case map_of b k of None \<Rightarrow> v | Some w \<Rightarrow> deepMerge v w) # deepMergeProps ps b"

definition deepMergeConfig :: "jsobject \<Rightarrow> jsobject \<Rightarrow> string \<Rightarrow> jsobject" where
  "deepMergeConfig defaultConfig config t =
     (case deepMerge (JObject defaultConfig) (JObject config) of
        JObject merged \<Rightarrow> AList.update ''type'' (JString t) merged
      | _ \<Rightarrow> [])"

definition configOf :: "string + WidgetInstance \<Rightarrow> jsobject option" where
  "configOf r = (case r of Inl msg \<Rightarrow> None | Inr instance \<Rightarrow> Some (inst_config instance))"

lemmas orchestrator_defs =
  createWidget_def loadWidgetComponent_def updateInstanceState_def
  handleWidgetError_def notifyInstancesChange_def getAllWidgets_def setupDataBinding_def
  createComponent_def loadComponent_def checkDependencies_def getWidget_def hasWidget_def
  mergeConfig_def objectSpread_def getProp_def newOrchestrator_def Let_def

lemma map_of_objectSpread:
  "map_of (objectSpread acc ps) = map_of acc ++ map_of (rev ps)"
  unfolding objectSpread_def
  by (induction ps arbitrary: acc)
    (auto simp: update_conv' map_add_def fun_eq_iff split: option.splits)

lemma map_of_rev_distinct: "distinct (map fst ps) \<Longrightarrow> map_of (rev ps) = map_of ps"
proof (induction ps)
  case Nil
  then show ?case by simp
next
  case (Cons p ps)
  then have "fst p \<notin> dom (map_of ps)" by (auto simp: dom_map_of_conv_image_fst)
  then have "map_of ps (fst p) = None" by blast
  with Cons show ?case
    by (cases p) (auto simp: map_add_def fun_eq_iff split: option.splits)
qed

lemma createWidget_Inr_config:
  assumes "fst (createWidget now random t config container s) = Inr instance"
  shows "\<exists>d. getWidget (widgetRegistry s) t = Some d \<and>
           inst_config instance = mergeConfig (def_defaultConfig d) config t"
  using assms
  by (auto simp: createWidget_def Let_def split: option.splits if_splits prod.splits sum.splits)

lemma map_of_mergeConfig:
  assumes "distinct (map fst defaultConfig)" "distinct (map fst config)"
  shows "map_of (mergeConfig defaultConfig config t) k =
     (if k = ''type'' then Some (JString t)
      else case map_of config k of Some v \<Rightarrow> Some v | None \<Rightarrow> map_of defaultConfig k)"
  using assms
  by (simp add: mergeConfig_def update_conv' map_of_objectSpread map_of_rev_distinct map_add_def)

text \<open>
  C4, as stated, fails: the configuration is not the deep merge. With the default layout
  \<open>{cols: 2, rows: 2, x: 1}\<close> and the override \<open>{layout: {cols: 3, rows: 3}}\<close> the
  created widget has the layout \<open>{cols: 3, rows: 3}\<close>; the deep merge would keep
  \<open>x: 1\<close>.
\<close>

theorem createWidget_deep_merge_counterexample:
  "configOf (fst (createWidget 1700000000000 ''k3x9q2m1z'' ''todo''
       [(''layout'', JObject [(''cols'', JNum 3), (''rows'', JNum 3)])] None
       (newOrchestrator exampleRegistry)))
     = Some [(''title'', JString ''Todo''),
             (''layout'', JObject [(''cols'', JNum 3), (''rows'', JNum 3)]),
             (''settings'', JObject [(''showDone'', JBool True)]),
             (''type'', JString ''todo'')] \<and>
   deepMergeConfig (def_defaultConfig todoDefinition)
       [(''layout'', JObject [(''cols'', JNum 3), (''rows'', JNum 3)])] ''todo''
     = [(''title'', JString ''Todo''),
        (''layout'', JObject [(''cols'', JNum 3), (''rows'', JNum 3), (''x'', JNum 1)]),
        (''settings'', JObject [(''showDone'', JBool True)]),
        (''type'', JString ''todo'')] \<and>
   configOf (fst (createWidget 1700000000000 ''k3x9q2m1z'' ''todo''
       [(''layout'', JObject [(''cols'', JNum 3), (''rows'', JNum 3)])] None
       (newOrchestrator exampleRegistry)))
     \<noteq> Some (deepMergeConfig (def_defaultConfig todoDefinition)
              [(''layout'', JObject [(''cols'', JNum 3), (''rows'', JNum 3)])] ''todo'')"
  by (simp add: configOf_def createWidget_def newOrchestrator_def getWidget_def Let_def
      exampleRegistry_widgets checkDependencies_def todoDefinition_def mergeConfig_def
      objectSpread_def deepMergeConfig_def)

text \<open>
  C4, amended. When \<open>createWidget\<close> succeeds, the configuration of the instance is the
  shallow merge \<^verbatim>\<open>{...defaultConfig, ...overrides, type}\<close>: its \<open>type\<close> is the type
  argument of the call, whatever the default configuration or the overrides say; every
  other top-level key that the overrides hold has the overrides' value as a whole (a
  nested object is replaced, not merged); every remaining key has the default value.
  Objects hold each key once.
\<close>

theorem createWidget_config_shallow_merge:
  assumes "fst (createWidget now random t config container s) = Inr instance"
    and "getWidget (widgetRegistry s) t = Some d"
    and "distinct (map fst (def_defaultConfig d))"
    and "distinct (map fst config)"
  shows "inst_config instance = mergeConfig (def_defaultConfig d) config t \<and>
         getProp (inst_config instance) ''type'' = JString t \<and>
         (\<forall>k. k \<noteq> ''type'' \<longrightarrow>
            map_of (inst_config instance) k =
              (case map_of config k of
                 Some v \<Rightarrow> Some v
               | None \<Rightarrow> map_of (def_defaultConfig d) k))"
proof -
  from createWidget_Inr_config [OF assms(1)] assms(2)
  have cfg: "inst_config instance = mergeConfig (def_defaultConfig d) config t" by auto
  show ?thesis
    using assms(3,4) by (simp add: cfg getProp_def map_of_mergeConfig)
qed

theorem createWidget_config_shallow_merge_witness:
  "getProp (mergeConfig (def_defaultConfig todoDefinition)
       [(''type'', JString ''graph''), (''layout'', JObject [(''cols'', JNum 3), (''rows'', JNum 3)])]
       ''todo'') ''type'' = JString ''todo'' \<and>
   map_of (mergeConfig (def_defaultConfig todoDefinition)
       [(''type'', JString ''graph''), (''layout'', JObject [(''cols'', JNum 3), (''rows'', JNum 3)])]
       ''todo'') ''layout'' = Some (JObject [(''cols'', JNum 3), (''rows'', JNum 3)]) \<and>
   map_of (mergeConfig (def_defaultConfig todoDefinition)
       [(''type'', JString ''graph''), (''layout'', JObject [(''cols'', JNum 3), (''rows'', JNum 3)])]
       ''todo'') ''title'' = Some (JString ''Todo'')"
proof -
  let ?config = "[(''type'', JString ''graph''),
                  (''layout'', JObject [(''cols'', JNum 3), (''rows'', JNum 3)])]"
  let ?s = "newOrchestrator exampleRegistry"
  let ?call = "createWidget 1700000000000 ''k3x9q2m1z'' ''todo'' ?config None ?s"
  obtain created where created: "fst ?call = Inr created"
    by (simp add: createWidget_def newOrchestrator_def getWidget_def Let_def
        exampleRegistry_widgets checkDependencies_def todoDefinition_def)
  have d: "getWidget (widgetRegistry ?s) ''todo'' = Some todoDefinition"
    by (simp add: newOrchestrator_def getWidget_def exampleRegistry_widgets)
  have d1: "distinct (map fst (def_defaultConfig todoDefinition))"
    by (simp add: todoDefinition_def)
  have d2: "distinct (map fst ?config)" by simp
  have layout: "map_of (def_defaultConfig todoDefinition) ''title'' = Some (JString ''Todo'')"
    by (simp add: todoDefinition_def)
  from createWidget_config_shallow_merge [OF created d d1 d2] layout
  show ?thesis by (auto simp: getProp_def)
qed


section \<open>Orchestrator: destroying a widget\<close>

text \<open>
  Whether the disposal of a widget throws: the \<open>onDestroy\<close> hook of its component or
  the \<open>destroy\<close> of its component reference throws, or the \<open>unsubscribe\<close> of its data
  subscription does.
\<close>

definition throws :: "outcome \<Rightarrow> bool" where
  "throws r = (case r of Returns \<Rightarrow> False | Throws msg \<Rightarrow> True)"

definition componentThrows :: "Orchestrator \<Rightarrow> string \<Rightarrow> bool" where
  "componentThrows s instanceId =
     (case map_of (componentRefs s) instanceId of
        None \<Rightarrow> False
      | Some component \<Rightarrow>
          (case onDestroy component of None \<Rightarrow> False | Some r \<Rightarrow> throws r)
          \<or> throws (destroy component))"

definition subscriptionThrows :: "Orchestrator \<Rightarrow> string \<Rightarrow> bool" where
  "subscriptionThrows s instanceId =
     (case map_of (subscriptions s) instanceId of
        None \<Rightarrow> False
      | Some subscription \<Rightarrow> throws (unsubscribe subscription))"

definition disposalThrows :: "Orchestrator \<Rightarrow> string \<Rightarrow> bool" where
  "disposalThrows s instanceId = (componentThrows s instanceId \<or> subscriptionThrows s instanceId)"

lemma instances_handleWidgetError:
  "map_of (instances (handleWidgetError now i e s)) i =
     map_option (\<lambda>inst. inst\<lparr>inst_error := Some e, inst_state := ERROR, inst_updatedAt := now\<rparr>)
       (map_of (instances s) i)"
  by (simp add: handleWidgetError_def notifyInstancesChange_def Let_def update_conv'
      split: option.splits)

lemma cleanUpComponent_throws:
  "componentThrows s i \<Longrightarrow> \<exists>msg. cleanUpComponent i s = Inl (msg, s)"
  by (auto simp: componentThrows_def throws_def cleanUpComponent_def
      split: option.splits outcome.splits)

lemma cleanUpComponent_returns:
  "\<not> componentThrows s i \<Longrightarrow>
     \<exists>s1. cleanUpComponent i s = Inr s1 \<and> instances s1 = instances s \<and>
          subscriptions s1 = subscriptions s"
  by (auto simp: componentThrows_def throws_def cleanUpComponent_def
      split: option.splits outcome.splits)

lemma cleanUpSubscription_throws:
  "subscriptionThrows s i \<Longrightarrow> \<exists>msg. cleanUpSubscription i s = Inl (msg, s)"
  by (auto simp: subscriptionThrows_def throws_def cleanUpSubscription_def
      split: option.splits outcome.splits)

lemma cleanUpSubscription_returns:
  "\<not> subscriptionThrows s i \<Longrightarrow>
     \<exists>s2. cleanUpSubscription i s = Inr s2 \<and> instances s2 = instances s"
  by (auto simp: subscriptionThrows_def throws_def cleanUpSubscription_def
      split: option.splits outcome.splits)

lemma destroyWidget_absent:
  "map_of (instances s) i = None \<Longrightarrow> destroyWidget now i s = (False, s)"
  by (simp add: destroyWidget_def)

lemma destroyWidget_returns:
  assumes live: "map_of (instances s) i = Some inst" and quiet: "\<not> disposalThrows s i"
  shows "fst (destroyWidget now i s) = True \<and>
         map_of (instances (snd (destroyWidget now i s))) i = None"
proof -
  from quiet have c: "\<not> componentThrows s i" and u: "\<not> subscriptionThrows s i"
    by (simp_all add: disposalThrows_def)
  from cleanUpComponent_returns [OF c] obtain s1 where
    s1: "cleanUpComponent i s = Inr s1" "instances s1 = instances s"
        "subscriptions s1 = subscriptions s" by blast
  from u have "\<not> subscriptionThrows s1 i" by (simp add: subscriptionThrows_def s1(3))
  from cleanUpSubscription_returns [OF this] obtain s2 where
    s2: "cleanUpSubscription i s1 = Inr s2" "instances s2 = instances s1" by blast
  let ?s3 = "updateInstanceState now i DESTROYED s2"
  have "destroyWidget now i s =
      (True, notifyInstancesChange (?s3\<lparr>instances := AList.delete i (instances ?s3)\<rparr>))"
    by (simp add: destroyWidget_def live s1(1) s2(1) Let_def)
  then show ?thesis
    by (simp add: notifyInstancesChange_def delete_conv')
qed

lemma destroyWidget_throws:
  assumes live: "map_of (instances s) i = Some inst" and thr: "disposalThrows s i"
  shows "\<exists>msg. fst (destroyWidget now i s) = False \<and>
           map_of (instances (snd (destroyWidget now i s))) i =
             Some (inst\<lparr>inst_error := Some (destroyFailed now msg), inst_state := ERROR,
                        inst_updatedAt := now\<rparr>)"
proof (cases "componentThrows s i")
  case True
  from cleanUpComponent_throws [OF this] obtain msg where "cleanUpComponent i s = Inl (msg, s)"
    by blast
  with live show ?thesis
    by (intro exI [of _ msg]) (simp add: destroyWidget_def instances_handleWidgetError)
next
  case False
  from cleanUpComponent_returns [OF this] obtain s1 where
    s1: "cleanUpComponent i s = Inr s1" "instances s1 = instances s"
        "subscriptions s1 = subscriptions s" by blast
  from thr False have "subscriptionThrows s1 i"
    by (simp add: disposalThrows_def subscriptionThrows_def s1(3))
  from cleanUpSubscription_throws [OF this] obtain msg where
    "cleanUpSubscription i s1 = Inl (msg, s1)" by blast
  with live s1 show ?thesis
    by (intro exI [of _ msg]) (simp add: destroyWidget_def instances_handleWidgetError)
qed

text \<open>Two dashboards reached by \<open>createWidget\<close> with a container.\<close>

definition fragileId :: string where
  "fragileId = generateInstanceId ''fragile'' 1700000000000 ''k3x9q2m1z''"

definition fragileState :: Orchestrator where
  "fragileState =
     snd (createWidget 1700000000000 ''k3x9q2m1z'' ''fragile'' [] (Some ViewContainerRef)
            (newOrchestrator exampleRegistry))"

definition todoId :: string where
  "todoId = generateInstanceId ''todo'' 1700000000000 ''k3x9q2m1z''"

definition todoState :: Orchestrator where
  "todoState =
     snd (createWidget 1700000000000 ''k3x9q2m1z'' ''todo'' [] (Some ViewContainerRef)
            (newOrchestrator exampleRegistry))"

lemma fragileState_tables:
  "map fst (instances fragileState) = [fragileId] \<and>
   componentRefs fragileState = [(fragileId, brokenClass)] \<and>
   subscriptions fragileState = []"
  by (simp add: fragileState_def fragileId_def orchestrator_defs exampleRegistry_widgets
      fragileDefinition_def todoDefinition_def brokenClass_def)

lemma todoState_tables:
  "map fst (instances todoState) = [todoId] \<and>
   componentRefs todoState = [(todoId, quietClass)] \<and>
   subscriptions todoState = []"
  by (simp add: todoState_def todoId_def orchestrator_defs exampleRegistry_widgets
      todoDefinition_def quietClass_def)

lemma live_from_keys: "map fst al = [k] \<Longrightarrow> \<exists>v. map_of al k = Some v"
  by (cases al) auto

text \<open>
  C5, as stated, fails in a reachable state: a widget created into a container whose
  component has a throwing \<open>onDestroy\<close> hook is live, yet the first
  \<open>destroyWidget\<close> call returns false and the instance stays in the table.
\<close>

theorem destroyWidget_first_call_counterexample:
  "map_of (instances fragileState) fragileId \<noteq> None \<and>
   fst (destroyWidget 1700000000500 fragileId fragileState) = False \<and>
   map_of (instances (snd (destroyWidget 1700000000500 fragileId fragileState))) fragileId \<noteq> None"
proof -
  from fragileState_tables have "map fst (instances fragileState) = [fragileId]" by simp
  from live_from_keys [OF this] obtain inst where
    live: "map_of (instances fragileState) fragileId = Some inst" by blast
  have "disposalThrows fragileState fragileId"
    using fragileState_tables
    by (simp add: disposalThrows_def componentThrows_def throws_def brokenClass_def)
  from destroyWidget_throws [OF live this, of 1700000000500] live
  show ?thesis by auto
qed

text \<open>
  C5, amended. \<open>destroyWidget\<close> never throws to the caller (it is a total function to
  a boolean and a state). For a live id: when the disposal does not throw, the first call
  returns true and removes the instance from the table, and a second call with the same
  id returns false and changes nothing; when the disposal throws, the call returns false
  and the instance stays in the table, in state \<open>ERROR\<close> with a \<open>DESTROY_FAILED\<close>
  error.
\<close>

theorem destroyWidget_twice:
  assumes "map_of (instances s) i = Some inst"
  shows "(\<not> disposalThrows s i \<longrightarrow>
            fst (destroyWidget now i s) = True \<and>
            map_of (instances (snd (destroyWidget now i s))) i = None \<and>
            destroyWidget later i (snd (destroyWidget now i s))
              = (False, snd (destroyWidget now i s))) \<and>
         (disposalThrows s i \<longrightarrow>
            fst (destroyWidget now i s) = False \<and>
            (\<exists>msg. map_of (instances (snd (destroyWidget now i s))) i =
               Some (inst\<lparr>inst_error := Some (destroyFailed now msg), inst_state := ERROR,
                          inst_updatedAt := now\<rparr>)))"
proof (intro conjI impI)
  assume quiet: "\<not> disposalThrows s i"
  from destroyWidget_returns [OF assms quiet, of now]
  show "fst (destroyWidget now i s) = True"
    and gone: "map_of (instances (snd (destroyWidget now i s))) i = None" by simp_all
  from destroyWidget_absent [OF gone]
  show "destroyWidget later i (snd (destroyWidget now i s)) = (False, snd (destroyWidget now i s))" .
next
  assume thr: "disposalThrows s i"
  from destroyWidget_throws [OF assms thr, of now]
  show "fst (destroyWidget now i s) = False" by blast
  from destroyWidget_throws [OF assms thr, of now]
  show "\<exists>msg. map_of (instances (snd (destroyWidget now i s))) i =
      Some (inst\<lparr>inst_error := Some (destroyFailed now msg), inst_state := ERROR,
                 inst_updatedAt := now\<rparr>)" by blast
qed

theorem destroyWidget_twice_witness:
  "map_of (instances todoState) todoId \<noteq> None \<and>
   fst (destroyWidget 1700000000500 todoId todoState) = True \<and>
   map_of (instances (snd (destroyWidget 1700000000500 todoId todoState))) todoId = None \<and>
   fst (destroyWidget 1700000000900 todoId (snd (destroyWidget 1700000000500 todoId todoState)))
     = False"
proof -
  from todoState_tables have "map fst (instances todoState) = [todoId]" by simp
  from live_from_keys [OF this] obtain inst where
    live: "map_of (instances todoState) todoId = Some inst" by blast
  have quiet: "\<not> disposalThrows todoState todoId"
    using todoState_tables
    by (simp add: disposalThrows_def componentThrows_def subscriptionThrows_def throws_def
        quietClass_def)
  from destroyWidget_twice [OF live, of 1700000000500 1700000000900] quiet live
  show ?thesis by auto
qed


section \<open>Widget communication service\<close>

text \<open>
  \<open>WidgetCommunicationService\<close> has one rxjs \<open>Subject\<close>, \<open>eventBus\<close>, on which
  \<open>broadcast\<close> and \<open>send\<close> both call \<open>next\<close>; every \<open>subscribe...\<close> method
  subscribes a handler to that subject behind a \<open>filter\<close>. A handler is identified by a
  number; what the handlers have been called with is the list \<open>handled\<close>. The shared
  state is a map from keys to \<open>BehaviorSubject\<close>s; the subjects live in a store
  (\<open>subjects\<close>, addressed by position) so that an observable handed out for a key stays
  tied to its subject. What the observers of shared-state subjects have received is the
  list \<open>observed\<close>. The service is a root singleton, alive as long as the application;
  its \<open>ngOnDestroy\<close>, which ends it, is not represented.
\<close>

record WidgetEvent =
  ev_type :: string
  ev_source :: string
  ev_target :: "string option"
  ev_payload :: jsval
  ev_timestamp :: nat
  ev_bubble :: "bool option"

datatype EventFilter = ByType string | BySource string | ByTarget string | AllEvents

fun passes :: "EventFilter \<Rightarrow> WidgetEvent \<Rightarrow> bool" where
  "passes (ByType eventType) event = (ev_type event = eventType)"
| "passes (BySource sourceId) event = (ev_source event = sourceId)"
| "passes (ByTarget targetId) event = (ev_target event = Some targetId)"
| "passes AllEvents event = True"

record BusSubscription =
  sub_id :: nat
  sub_handler :: nat
  sub_filter :: EventFilter

record BehaviorSubject =
  bs_value :: jsval
  bs_observers :: "nat list"
  bs_completed :: bool

record Communication =
  eventBus :: "BusSubscription list"
  nextSubscription :: nat
  handled :: "(nat \<times> WidgetEvent) list"
  subjects :: "BehaviorSubject list"
  sharedState :: "(string \<times> nat) list"
  observed :: "(nat \<times> jsval) list"

definition newCommunication :: Communication where
  "newCommunication =
     \<lparr>eventBus = [], nextSubscription = 0, handled = [], subjects = [], sharedState = [],
      observed = []\<rparr>"

definition busNext :: "WidgetEvent \<Rightarrow> Communication \<Rightarrow> Communication" where
  "busNext event s =
     s\<lparr>handled := handled s @
          map (\<lambda>sub. (sub_handler sub, event))
            (filter (\<lambda>sub. passes (sub_filter sub) event) (eventBus s))\<rparr>"

definition broadcast :: "nat \<Rightarrow> WidgetEvent \<Rightarrow> Communication \<Rightarrow> Communication" where
  "broadcast now event s = busNext (event\<lparr>ev_timestamp := now, ev_bubble := Some True\<rparr>) s"

definition send :: "nat \<Rightarrow> string \<Rightarrow> WidgetEvent \<Rightarrow> Communication \<Rightarrow> Communication" where
  "send now targetId event s =
     busNext (event\<lparr>ev_target := Some targetId, ev_timestamp := now, ev_bubble := Some False\<rparr>) s"

definition busSubscribe :: "EventFilter \<Rightarrow> nat \<Rightarrow> Communication \<Rightarrow> nat \<times> Communication" where
  "busSubscribe flt handler s =
     (nextSubscription s,
      s\<lparr>eventBus := eventBus s @
           [\<lparr>sub_id = nextSubscription s, sub_handler = handler, sub_filter = flt\<rparr>],
        nextSubscription := Suc (nextSubscription s)\<rparr>)"

definition subscribe :: "string \<Rightarrow> nat \<Rightarrow> Communication \<Rightarrow> nat \<times> Communication" where
  "subscribe eventType handler s = busSubscribe (ByType eventType) handler s"


definition subscribeToTargetedEvents :: "string \<Rightarrow> nat \<Rightarrow> Communication \<Rightarrow> nat \<times> Communication" where
  "subscribeToTargetedEvents targetId handler s = busSubscribe (ByTarget targetId) handler s"


definition unsubscribeBus :: "nat \<Rightarrow> Communication \<Rightarrow> Communication" where
  "unsubscribeBus subscription s =
     s\<lparr>eventBus := filter (\<lambda>sub. sub_id sub \<noteq> subscription) (eventBus s)\<rparr>"


definition subjectComplete :: "nat \<Rightarrow> Communication \<Rightarrow> Communication" where
  "subjectComplete a s =
     (if a < length (subjects s)
      then s\<lparr>subjects := (subjects s)[a := (subjects s ! a)\<lparr>bs_completed := True, bs_observers := []\<rparr>]\<rparr>
      else s)"


definition newSubject :: "jsval \<Rightarrow> BehaviorSubject" where
  "newSubject v = \<lparr>bs_value = v, bs_observers = [], bs_completed = False\<rparr>"


definition getSharedState :: "Communication \<Rightarrow> string \<Rightarrow> jsval" where
  "getSharedState s key =
     (case map_of (sharedState s) key of
        None \<Rightarrow> JUndefined
      | Some a \<Rightarrow> if a < length (subjects s) then bs_value (subjects s ! a) else JUndefined)"


definition removeSharedState :: "nat \<Rightarrow> string \<Rightarrow> Communication \<Rightarrow> bool \<times> Communication" where
  "removeSharedState now key s =
     (case map_of (sharedState s) key of
        None \<Rightarrow> (False, s)
      | Some a \<Rightarrow>
          (True,
           broadcast now
             \<lparr>ev_type = ''STATE_REMOVED'', ev_source = ''system'', ev_target = None,
              ev_payload = JObject [(''key'', JString key)],
              ev_timestamp = now, ev_bubble = Some True\<rparr>
             ((subjectComplete a s)\<lparr>sharedState := AList.delete key (sharedState s)\<rparr>)))"

definition clearSharedState :: "nat \<Rightarrow> Communication \<Rightarrow> Communication" where
  "clearSharedState now s =
     broadcast now
       \<lparr>ev_type = ''STATE_CLEARED'', ev_source = ''system'', ev_target = None,
        ev_payload = JObject [], ev_timestamp = now, ev_bubble = Some True\<rparr>
       ((fold subjectComplete (map snd (sharedState s)) s)\<lparr>sharedState := []\<rparr>)"





section \<open>Communication: directed events\<close>

definition exampleEvent :: WidgetEvent where
  "exampleEvent =
     \<lparr>ev_type = ''X'', ev_source = ''w1'', ev_target = None, ev_payload = JNull,
      ev_timestamp = 0, ev_bubble = None\<rparr>"

text \<open>The event \<open>send\<close> puts on the bus.\<close>

definition stamped :: "nat \<Rightarrow> string \<Rightarrow> WidgetEvent \<Rightarrow> WidgetEvent" where
  "stamped now targetId event =
     event\<lparr>ev_target := Some targetId, ev_timestamp := now, ev_bubble := Some False\<rparr>"

text \<open>
  C3, as stated, fails: a handler registered with \<open>subscribe(''X'', handler)\<close> receives
  the event of type \<open>X\<close> that is sent to target \<open>w2\<close>, although nobody subscribed to
  targeted events for \<open>w2\<close>.
\<close>

theorem send_reaches_type_subscriber_counterexample:
  "handled (send 5 ''w2'' exampleEvent (snd (subscribe ''X'' 1 newCommunication)))
     = [(1, exampleEvent\<lparr>ev_target := Some ''w2'', ev_timestamp := 5, ev_bubble := Some False\<rparr>)]"
  by (simp add: send_def busNext_def subscribe_def busSubscribe_def newCommunication_def
      exampleEvent_def)

text \<open>
  C3, amended. \<open>send(targetId, event)\<close> puts the event, with its target set to
  \<open>targetId\<close> and \<open>bubble\<close> false, on the one shared bus. It is delivered, in
  subscription order, to exactly the subscribed handlers whose filter passes it: the
  handlers of \<open>subscribeToTargetedEvents(targetId)\<close>, and also the handlers of
  \<open>subscribe(eventType)\<close> with \<open>eventType\<close> equal to the event's type, those of
  \<open>subscribeToWidget(sourceId)\<close> with \<open>sourceId\<close> equal to the event's source, and
  the observers of \<open>getAllEvents()\<close>.
\<close>

theorem send_delivery:
  "handled (send now targetId event s) =
     handled s @ map (\<lambda>sub. (sub_handler sub, stamped now targetId event))
        (filter (\<lambda>sub. sub_filter sub = ByTarget targetId \<or> sub_filter sub = ByType (ev_type event)
                       \<or> sub_filter sub = BySource (ev_source event) \<or> sub_filter sub = AllEvents)
           (eventBus s))"
proof -
  have "passes f (stamped now targetId event) \<longleftrightarrow>
      (f = ByTarget targetId \<or> f = ByType (ev_type event) \<or> f = BySource (ev_source event)
       \<or> f = AllEvents)" for f
    by (cases f) (auto simp: stamped_def)
  then show ?thesis
    by (simp add: send_def busNext_def stamped_def)
qed

theorem send_delivery_witness:
  "handled (send 5 ''w2'' exampleEvent
      (snd (subscribeToTargetedEvents ''w3'' 3
        (snd (subscribeToTargetedEvents ''w2'' 2
          (snd (subscribe ''X'' 1 newCommunication)))))))
     = [(1, stamped 5 ''w2'' exampleEvent), (2, stamped 5 ''w2'' exampleEvent)]"
  using send_delivery [of 5 "''w2''" exampleEvent
      "snd (subscribeToTargetedEvents ''w3'' 3
        (snd (subscribeToTargetedEvents ''w2'' 2
          (snd (subscribe ''X'' 1 newCommunication)))))"]
  by (simp add: subscribe_def subscribeToTargetedEvents_def busSubscribe_def
      newCommunication_def exampleEvent_def)


section \<open>Communication: shared-state replay\<close>










text \<open>The observers currently subscribed to the subject of a key.\<close>

definition subscribersOf :: "Communication \<Rightarrow> string \<Rightarrow> nat list" where
  "subscribersOf s key =
     (case map_of (sharedState s) key of
        None \<Rightarrow> []
      | Some a \<Rightarrow> if a < length (subjects s) then bs_observers (subjects s ! a) else [])"

text \<open>
  Invariant of the shared-state map: every key is bound to a subject of the store that
  has not completed, and no two keys share a subject.
\<close>

definition cellsOk :: "Communication \<Rightarrow> bool" where
  "cellsOk s =
     ((\<forall>key a. map_of (sharedState s) key = Some a \<longrightarrow>
          a < length (subjects s) \<and> \<not> bs_completed (subjects s ! a)) \<and>
      (\<forall>key key' a. map_of (sharedState s) key = Some a \<longrightarrow>
          map_of (sharedState s) key' = Some a \<longrightarrow> key = key'))"

text \<open>Adding a cell for an absent key, and dropping the cell of a key.\<close>

definition addCell :: "string \<Rightarrow> jsval \<Rightarrow> Communication \<Rightarrow> Communication" where
  "addCell key v s =
     s\<lparr>subjects := subjects s @ [newSubject v],
       sharedState := AList.update key (length (subjects s)) (sharedState s)\<rparr>"

definition dropCell :: "string \<Rightarrow> nat \<Rightarrow> Communication \<Rightarrow> Communication" where
  "dropCell key a s = (subjectComplete a s)\<lparr>sharedState := AList.delete key (sharedState s)\<rparr>"




lemma cellsOk_new: "cellsOk newCommunication"
  by (simp add: cellsOk_def newCommunication_def)



lemma broadcast_shared [simp]:
  "sharedState (broadcast now e s) = sharedState s"
  "subjects (broadcast now e s) = subjects s"
  "observed (broadcast now e s) = observed s"
  by (simp_all add: broadcast_def busNext_def)

lemma send_shared [simp]:
  "sharedState (send now t e s) = sharedState s"
  "subjects (send now t e s) = subjects s"
  "observed (send now t e s) = observed s"
  by (simp_all add: send_def busNext_def)

lemma busSubscribe_shared [simp]:
  "sharedState (snd (busSubscribe f h s)) = sharedState s"
  "subjects (snd (busSubscribe f h s)) = subjects s"
  "observed (snd (busSubscribe f h s)) = observed s"
  by (simp_all add: busSubscribe_def)

lemma unsubscribeBus_shared [simp]:
  "sharedState (unsubscribeBus n s) = sharedState s"
  "subjects (unsubscribeBus n s) = subjects s"
  "observed (unsubscribeBus n s) = observed s"
  by (simp_all add: unsubscribeBus_def)

lemma cellsOk_cong:
  "sharedState s' = sharedState s \<Longrightarrow> subjects s' = subjects s \<Longrightarrow> cellsOk s' = cellsOk s"
  by (simp add: cellsOk_def)

lemma getSharedState_cong:
  "sharedState s' = sharedState s \<Longrightarrow> subjects s' = subjects s \<Longrightarrow>
     getSharedState s' key = getSharedState s key"
  by (simp add: getSharedState_def split: option.splits)

lemma subscribersOf_cong:
  "sharedState s' = sharedState s \<Longrightarrow> subjects s' = subjects s \<Longrightarrow>
     subscribersOf s' key = subscribersOf s key"
  by (simp add: subscribersOf_def split: option.splits)

lemma cellsOk_bus [simp]:
  "cellsOk (broadcast now e s) = cellsOk s"
  "cellsOk (send now t e s) = cellsOk s"
  "cellsOk (snd (busSubscribe f h s)) = cellsOk s"
  "cellsOk (unsubscribeBus n s) = cellsOk s"
  by (rule cellsOk_cong; simp)+

lemma getSharedState_bus [simp]:
  "getSharedState (broadcast now e s) key = getSharedState s key"
  "getSharedState (send now t e s) key = getSharedState s key"
  "getSharedState (snd (busSubscribe f h s)) key = getSharedState s key"
  "getSharedState (unsubscribeBus n s) key = getSharedState s key"
  by (rule getSharedState_cong; simp)+

lemma subscribersOf_bus [simp]:
  "subscribersOf (broadcast now e s) key = subscribersOf s key"
  "subscribersOf (send now t e s) key = subscribersOf s key"
  "subscribersOf (snd (busSubscribe f h s)) key = subscribersOf s key"
  "subscribersOf (unsubscribeBus n s) key = subscribersOf s key"
  by (rule subscribersOf_cong; simp)+













lemma observed_addCell [simp]: "observed (addCell key v s) = observed s"
  by (simp add: addCell_def)



lemma removeSharedState_cases:
  "snd (removeSharedState now key s) =
     (case map_of (sharedState s) key of
        None \<Rightarrow> s
      | Some a \<Rightarrow>
          broadcast now
            \<lparr>ev_type = ''STATE_REMOVED'', ev_source = ''system'', ev_target = None,
             ev_payload = JObject [(''key'', JString key)],
             ev_timestamp = now, ev_bubble = Some True\<rparr>
            (dropCell key a s))"
  by (simp add: removeSharedState_def dropCell_def split: option.splits)

















lemma observed_dropCell [simp]: "observed (dropCell key a s) = observed s"
  by (simp add: dropCell_def subjectComplete_def)







lemma observed_removeSharedState [simp]:
  "observed (snd (removeSharedState now key s)) = observed s"
  by (simp add: removeSharedState_cases split: option.splits)

lemma observed_completeAll [simp]: "observed (fold subjectComplete as s) = observed s"
  by (induction as arbitrary: s) (simp_all add: subjectComplete_def)

lemma clearSharedState_shared [simp]:
  "sharedState (clearSharedState now s) = []"
  "observed (clearSharedState now s) = observed s"
  by (simp_all add: clearSharedState_def)


















section \<open>Dashboard export and import\<close>

text \<open>
  \<open>exportDashboard\<close> and \<open>importDashboard\<close> of \<open>DashboardLayoutManagerService\<close>
  pass the dashboard configuration through \<^verbatim>\<open>JSON.stringify\<close> and
  \<^verbatim>\<open>JSON.parse\<close>. At run time the configuration is whatever value the subject holds,
  a \<open>jsval\<close>. A JSON text is represented by the document it denotes, \<open>json\<close>; a string
  that is no JSON text, and the \<open>undefined\<close> that \<^verbatim>\<open>JSON.stringify\<close> returns for an
  undefined value or a function, is \<open>None\<close>. \<open>serialize\<close> follows
  \<^verbatim>\<open>JSON.stringify\<close>: a \<open>Date\<close> becomes its ISO string, a property whose value is
  undefined or a function is left out, and such an array element becomes \<open>null\<close>.
\<close>

datatype json =
    JsonNull
  | JsonBool bool
  | JsonNum int
  | JsonStr string
  | JsonArr "json list"
  | JsonObj "(string \<times> json) list"

fun omitted :: "jsval \<Rightarrow> bool" where
  "omitted JUndefined = True"
| "omitted JFunction = True"
| "omitted v = False"

fun serialize :: "jsval \<Rightarrow> json"
  and serializeElems :: "jsval list \<Rightarrow> json list"
  and serializeProps :: "(string \<times> jsval) list \<Rightarrow> (string \<times> json) list" where
  "serialize JUndefined = JsonNull"
| "serialize JFunction = JsonNull"
| "serialize JNull = JsonNull"
| "serialize (JBool b) = JsonBool b"
| "serialize (JNum n) = JsonNum n"
| "serialize (JString s) = JsonStr s"
| "serialize (JDate s) = JsonStr s"
| "serialize (JArray es) = JsonArr (serializeElems es)"
| "serialize (JObject ps) = JsonObj (serializeProps ps)"
| "serializeElems [] = []"
| "serializeElems (e # es) = serialize e # serializeElems es"
| "serializeProps [] = []"
| "serializeProps ((k, v) # ps) =
     (if omitted v then serializeProps ps else (k, serialize v) # serializeProps ps)"

definition stringify :: "jsval \<Rightarrow> json option" where
  "stringify v = (if omitted v then None else Some (serialize v))"

fun parse :: "json \<Rightarrow> jsval" where
  "parse JsonNull = JNull"
| "parse (JsonBool b) = JBool b"
| "parse (JsonNum n) = JNum n"
| "parse (JsonStr s) = JString s"
| "parse (JsonArr es) = JArray (map parse es)"
| "parse (JsonObj ps) = JObject (map (\<lambda>(k, v). (k, parse v)) ps)"

fun isArray :: "jsval \<Rightarrow> bool" where
  "isArray (JArray es) = True"
| "isArray v = False"

text \<open>
  \<open>validateDashboardConfig\<close> throws unless \<open>id\<close>, \<open>title\<close> and \<open>grid\<close> are
  truthy and \<open>widgets\<close> is an array; reading a property of \<open>null\<close> or
  \<open>undefined\<close> throws as well. \<open>importDashboard\<close> catches whatever is thrown and
  returns false; its second component is the configuration the subject holds afterwards.
\<close>

definition validateDashboardConfig :: "jsval \<Rightarrow> outcome" where
  "validateDashboardConfig config =
     (case config of
        JUndefined \<Rightarrow> Throws ''Cannot read properties of undefined''
      | JNull \<Rightarrow> Throws ''Cannot read properties of null''
      | JObject ps \<Rightarrow>
          (if \<not> truthy (getProp ps ''id'') \<or> \<not> truthy (getProp ps ''title'')
              \<or> \<not> truthy (getProp ps ''grid'') \<or> \<not> isArray (getProp ps ''widgets'')
           then Throws ''Invalid dashboard configuration'' else Returns)
      | _ \<Rightarrow> Throws ''Invalid dashboard configuration'')"

definition exportDashboard :: "jsval \<Rightarrow> json option" where
  "exportDashboard dashboardConfig = stringify dashboardConfig"

definition importDashboard :: "json option \<Rightarrow> jsval \<Rightarrow> bool \<times> jsval" where
  "importDashboard configJson dashboardConfig =
     (case configJson of
        None \<Rightarrow> (False, dashboardConfig)
      | Some text \<Rightarrow>
          (let config = parse text
           in case validateDashboardConfig config of
                Throws msg \<Rightarrow> (False, dashboardConfig)
              | Returns \<Rightarrow> (True, config)))"


text \<open>Values that hold JSON data only: no \<open>Date\<close>, function or \<open>undefined\<close> inside.\<close>

fun jsonData :: "jsval \<Rightarrow> bool"
  and jsonDataElems :: "jsval list \<Rightarrow> bool"
  and jsonDataProps :: "(string \<times> jsval) list \<Rightarrow> bool" where
  "jsonData JUndefined = False"
| "jsonData JFunction = False"
| "jsonData (JDate s) = False"
| "jsonData JNull = True"
| "jsonData (JBool b) = True"
| "jsonData (JNum n) = True"
| "jsonData (JString s) = True"
| "jsonData (JArray es) = jsonDataElems es"
| "jsonData (JObject ps) = jsonDataProps ps"
| "jsonDataElems [] = True"
| "jsonDataElems (e # es) = (jsonData e \<and> jsonDataElems es)"
| "jsonDataProps [] = True"
| "jsonDataProps ((k, v) # ps) = (jsonData v \<and> jsonDataProps ps)"

lemma jsonData_not_omitted: "jsonData v \<Longrightarrow> \<not> omitted v"
  by (cases v) simp_all

lemma parse_serialize:
  "(jsonData v \<longrightarrow> parse (serialize v) = v)"
  "(jsonDataElems es \<longrightarrow> map parse (serializeElems es) = es)"
  "(jsonDataProps ps \<longrightarrow> map (\<lambda>(k, v). (k, parse v)) (serializeProps ps) = ps)"
  by (induction v and es and ps rule: serialize_serializeElems_serializeProps.induct)
    (auto simp: jsonData_not_omitted)


definition gridObject :: jsval where
  "gridObject = JObject [(''cols'', JNum 12), (''rowHeight'', JNum 100), (''margin'', JNum 10),
      (''outerMargin'', JNum 10), (''responsive'', JBool True)]"

text \<open>The initial dashboard after \<open>updateDashboardConfig({title: ''})\<close>.\<close>

definition untitledDashboard :: jsval where
  "untitledDashboard = JObject [(''id'', JString ''default''), (''title'', JString []),
      (''grid'', gridObject), (''widgets'', JArray [])]"

text \<open>A dashboard with one widget instance, which carries its creation \<open>Date\<close>.\<close>

definition oneWidgetDashboard :: jsval where
  "oneWidgetDashboard = JObject [(''id'', JString ''default''), (''title'', JString ''Dashboard''),
      (''grid'', gridObject),
      (''widgets'', JArray [JObject [(''id'', JString ''todo_1_a''),
          (''state'', JString ''loaded''),
          (''createdAt'', JDate ''2024-01-01T00:00:00.000Z'')]])]"

text \<open>The same dashboard as it is after one import: the date is a string.\<close>

definition importedDashboard :: jsval where
  "importedDashboard = JObject [(''id'', JString ''default''), (''title'', JString ''Dashboard''),
      (''grid'', gridObject),
      (''widgets'', JArray [JObject [(''id'', JString ''todo_1_a''),
          (''state'', JString ''loaded''),
          (''createdAt'', JString ''2024-01-01T00:00:00.000Z'')]])]"

text \<open>
  C7, as stated, fails. With an empty title the import of the exported text returns
  false. With a widget instance in the list the import returns true, but the
  configuration it stores differs from the exported one: \<open>createdAt\<close> was a \<open>Date\<close>
  and is now a string.
\<close>

theorem import_export_counterexample:
  "importDashboard (exportDashboard untitledDashboard) untitledDashboard
     = (False, untitledDashboard) \<and>
   importDashboard (exportDashboard oneWidgetDashboard) oneWidgetDashboard
     = (True, importedDashboard) \<and>
   importedDashboard \<noteq> oneWidgetDashboard"
  by (simp add: importDashboard_def exportDashboard_def stringify_def untitledDashboard_def
      oneWidgetDashboard_def importedDashboard_def gridObject_def validateDashboardConfig_def
      getProp_def)

text \<open>
  C7, amended. For every dashboard configuration that holds JSON data only and that
  import validation accepts (truthy \<open>id\<close>, \<open>title\<close> and \<open>grid\<close>, \<open>widgets\<close> an
  array), \<open>importDashboard(exportDashboard())\<close> returns true and leaves the in-memory
  configuration equal to the exported one.
\<close>

theorem import_export_round_trip:
  assumes "jsonData config" and "validateDashboardConfig config = Returns"
  shows "importDashboard (exportDashboard config) config = (True, config)"
  using assms
  by (simp add: importDashboard_def exportDashboard_def stringify_def jsonData_not_omitted
      parse_serialize)

theorem import_export_round_trip_witness:
  "jsonData importedDashboard \<and> validateDashboardConfig importedDashboard = Returns \<and>
   importDashboard (exportDashboard importedDashboard) importedDashboard
     = (True, importedDashboard)"
proof -
  have a: "jsonData importedDashboard"
    by (simp add: importedDashboard_def gridObject_def)
  have b: "validateDashboardConfig importedDashboard = Returns"
    by (simp add: importedDashboard_def gridObject_def validateDashboardConfig_def getProp_def)
  from import_export_round_trip [OF a b] a b show ?thesis by simp
qed


section \<open>Dashboard layout manager\<close>

text \<open>
  \<open>WidgetLayout\<close> of widget.interface.ts, in grid units. Its optional fields \<open>x\<close>
  and \<open>y\<close> are \<open>pos_x\<close> and \<open>pos_y\<close> (\<open>None\<close> when undefined). The layout
  manager reads and writes only the \<open>id\<close> of a widget instance and the \<open>layout\<close> of
  its configuration; \<open>DashboardWidget\<close> is a widget instance seen that way, each
  instance an object of its own. Of \<open>DashboardConfig\<close> the fields the service touches
  are kept.

  Grid numbers are whole numbers of cells, and the arithmetic of the service is written
  as integer arithmetic. The service computes in double-precision numbers, on which sums
  and differences of whole numbers are exact as long as the results stay below
  \<open>2^53\<close> in magnitude. \<open>inRange\<close> bounds a number by \<open>2^51\<close>: every sum the
  service forms of two numbers in range and a search offset of at most 1000 stays below
  \<open>2^53\<close>, so that on states and arguments in range the service computes what is
  written here. The statements about \<open>addWidget\<close> and \<open>updateWidgetLayout\<close> are
  made for states and arguments in range.
\<close>

record WidgetLayout =
  cols :: int
  rows :: int
  pos_x :: "int option"
  pos_y :: "int option"
  minCols :: "int option"
  minRows :: "int option"
  maxCols :: "int option"
  maxRows :: "int option"

record DashboardWidget =
  widget_id :: string
  widget_layout :: WidgetLayout

record GridConfig =
  grid_cols :: int
  rowHeight :: int
  margin :: int
  outerMargin :: int
  responsive :: bool

record DashboardConfig =
  dash_id :: string
  dash_title :: string
  grid :: GridConfig
  dash_widgets :: "DashboardWidget list"

datatype ChangeType = Resize | Move | Add | Remove

record LayoutChange =
  change_type :: ChangeType
  change_instanceId :: string
  change_layout :: WidgetLayout
  change_previousLayout :: "WidgetLayout option"
  change_timestamp :: nat

record LayoutManager =
  dashboardConfig :: DashboardConfig
  layoutChanges :: "LayoutChange list"

definition inRange :: "int \<Rightarrow> bool" where
  "inRange n = (\<bar>n\<bar> \<le> 2251799813685248)"

definition optionInRange :: "int option \<Rightarrow> bool" where
  "optionInRange v = (case v of None \<Rightarrow> True | Some n \<Rightarrow> inRange n)"

definition layoutInRange :: "WidgetLayout \<Rightarrow> bool" where
  "layoutInRange l =
     (inRange (cols l) \<and> inRange (rows l) \<and> optionInRange (pos_x l) \<and> optionInRange (pos_y l)
      \<and> optionInRange (minCols l) \<and> optionInRange (minRows l)
      \<and> optionInRange (maxCols l) \<and> optionInRange (maxRows l))"

definition managerInRange :: "LayoutManager \<Rightarrow> bool" where
  "managerInRange s =
     (inRange (grid_cols (grid (dashboardConfig s)))
      \<and> list_all (\<lambda>w. layoutInRange (widget_layout w)) (dash_widgets (dashboardConfig s)))"

text \<open>
  The dashboard configuration and the empty change history the service is constructed
  with. (In the running application the breakpoint observer then sets \<open>cols\<close>,
  \<open>rowHeight\<close> and \<open>margin\<close> of the grid from the active breakpoint; on a large
  viewport \<open>cols\<close> stays 12.)
\<close>

definition defaultGridConfig :: GridConfig where
  "defaultGridConfig =
     \<lparr>grid_cols = 12, rowHeight = 100, margin = 10, outerMargin = 10, responsive = True\<rparr>"

definition newLayoutManager :: LayoutManager where
  "newLayoutManager =
     \<lparr>dashboardConfig =
        \<lparr>dash_id = ''default'', dash_title = ''Dashboard'', grid = defaultGridConfig,
         dash_widgets = []\<rparr>,
      layoutChanges = []\<rparr>"

text \<open>\<^verbatim>\<open>layout.x || 0\<close>: an undefined coordinate reads as 0.\<close>

definition orZero :: "int option \<Rightarrow> int" where
  "orZero v = (case v of None \<Rightarrow> 0 | Some n \<Rightarrow> n)"

text \<open>
  The loops of the service are \<open>for\<close> loops over an integer range that return from the
  function at the first hit. \<open>firstInRange body v upper\<close> is the loop
  \<^verbatim>\<open>for (; v <= upper; v++) { if (body(v) is a result) return it }\<close>; \<open>None\<close> means
  that the loop ran to its end.
\<close>

function firstInRange :: "(int \<Rightarrow> 'a option) \<Rightarrow> int \<Rightarrow> int \<Rightarrow> 'a option" where
  "firstInRange body v upper =
     (if v \<le> upper
      then (case body v of Some r \<Rightarrow> Some r | None \<Rightarrow> firstInRange body (v + 1) upper)
      else None)"
  by pat_completeness auto
termination
  by (relation "measure (\<lambda>(body, v, upper). nat (upper + 1 - v))") auto

declare firstInRange.simps [simp del]

text \<open>The test inside \<open>hasOverlap\<close>, and \<open>hasOverlap\<close> itself.\<close>

definition overlaps :: "WidgetLayout \<Rightarrow> WidgetLayout \<Rightarrow> bool" where
  "overlaps l wLayout =
     (let x1 = orZero (pos_x l); y1 = orZero (pos_y l);
          x2 = x1 + cols l; y2 = y1 + rows l;
          wx1 = orZero (pos_x wLayout); wy1 = orZero (pos_y wLayout);
          wx2 = wx1 + cols wLayout; wy2 = wy1 + rows wLayout
      in \<not> (x2 \<le> wx1 \<or> x1 \<ge> wx2 \<or> y2 \<le> wy1 \<or> y1 \<ge> wy2))"

definition hasOverlap :: "string \<Rightarrow> WidgetLayout \<Rightarrow> DashboardConfig \<Rightarrow> bool" where
  "hasOverlap excludeInstanceId l config =
     list_ex (\<lambda>widget. overlaps l (widget_layout widget))
       (filter (\<lambda>w. widget_id w \<noteq> excludeInstanceId) (dash_widgets config))"

text \<open>
  \<open>validateLayout\<close>. A bound is tested only when it is truthy
  (\<^verbatim>\<open>layout.minCols && ...\<close>): an absent bound and a bound of 0 are both skipped.
\<close>

definition declared :: "int option \<Rightarrow> bool" where
  "declared v = (case v of None \<Rightarrow> False | Some n \<Rightarrow> n \<noteq> 0)"

definition validateLayout :: "WidgetLayout \<Rightarrow> DashboardConfig \<Rightarrow> bool" where
  "validateLayout l config =
     (let gridCols = grid_cols (grid config) in
      if orZero (pos_x l) < 0 \<or> orZero (pos_y l) < 0 then False
      else if orZero (pos_x l) + cols l > gridCols then False
      else if declared (minCols l) \<and> cols l < orZero (minCols l) then False
      else if declared (maxCols l) \<and> cols l > orZero (maxCols l) then False
      else if declared (minRows l) \<and> rows l < orZero (minRows l) then False
      else if declared (maxRows l) \<and> rows l > orZero (maxRows l) then False
      else True)"

text \<open>\<^verbatim>\<open>{...layout, x, y}\<close>: the layout at a position.\<close>

definition at :: "WidgetLayout \<Rightarrow> int \<Rightarrow> int \<Rightarrow> WidgetLayout" where
  "at l x y = l\<lparr>pos_x := Some x, pos_y := Some y\<rparr>"

text \<open>
  \<open>findOptimalPosition\<close>: rows 0 to 999, in each row the columns 0 to
  \<open>gridCols - cols\<close>; the fallback is the row below every widget.
\<close>

definition findOptimalPosition :: "WidgetLayout \<Rightarrow> DashboardConfig \<Rightarrow> int \<times> int" where
  "findOptimalPosition l config =
     (let gridCols = grid_cols (grid config) in
      case firstInRange
             (\<lambda>y. firstInRange
                     (\<lambda>x. if \<not> hasOverlap [] (at l x y) config then Some (x, y) else None)
                     0 (gridCols - cols l))
             0 999 of
        Some position \<Rightarrow> position
      | None \<Rightarrow>
          (0, foldr max
                (map (\<lambda>w. orZero (pos_y (widget_layout w)) + rows (widget_layout w))
                   (dash_widgets config)) 0))"

text \<open>The history keeps the last 100 changes.\<close>

definition recordLayoutChange :: "LayoutChange \<Rightarrow> LayoutManager \<Rightarrow> LayoutManager" where
  "recordLayoutChange change s =
     (let updatedChanges = layoutChanges s @ [change]
      in s\<lparr>layoutChanges :=
             (if length updatedChanges > 100
              then drop (length updatedChanges - 100) updatedChanges
              else updatedChanges)\<rparr>)"

definition addWidget ::
  "nat \<Rightarrow> DashboardWidget \<Rightarrow> (int \<times> int) option \<Rightarrow> LayoutManager \<Rightarrow> LayoutManager" where
  "addWidget now inst position s =
     (let config = dashboardConfig s;
          p = (case position of
                 None \<Rightarrow> findOptimalPosition (widget_layout inst) config
               | Some given \<Rightarrow> given);
          placed = inst\<lparr>widget_layout := at (widget_layout inst) (fst p) (snd p)\<rparr>
      in recordLayoutChange
           \<lparr>change_type = Add, change_instanceId = widget_id placed,
            change_layout = widget_layout placed, change_previousLayout = None,
            change_timestamp = now\<rparr>
           (s\<lparr>dashboardConfig := config\<lparr>dash_widgets := dash_widgets config @ [placed]\<rparr>\<rparr>))"

definition removeWidget :: "nat \<Rightarrow> string \<Rightarrow> LayoutManager \<Rightarrow> bool \<times> LayoutManager" where
  "removeWidget now instanceId s =
     (let config = dashboardConfig s in
      case find (\<lambda>w. widget_id w = instanceId) (dash_widgets config) of
        None \<Rightarrow> (False, s)
      | Some widget \<Rightarrow>
          (True,
           recordLayoutChange
             \<lparr>change_type = Remove, change_instanceId = instanceId,
              change_layout = widget_layout widget, change_previousLayout = None,
              change_timestamp = now\<rparr>
             (s\<lparr>dashboardConfig :=
                  config\<lparr>dash_widgets :=
                           filter (\<lambda>w. widget_id w \<noteq> instanceId) (dash_widgets config)\<rparr>\<rparr>)))"

text \<open>
  \<open>Partial<WidgetLayout>\<close>: each property is absent or present, and a present
  optional property holds a number or \<open>undefined\<close>; \<open>cols\<close> and \<open>rows\<close>, which a
  \<open>WidgetLayout\<close> needs as numbers, hold a number when present. The spread
  \<^verbatim>\<open>{...widget.config.layout, ...layout}\<close> takes every present property from the
  partial layout, also one that holds \<open>undefined\<close>.
\<close>

datatype 'a property = Absent | Present 'a

record PartialLayout =
  p_cols :: "int property"
  p_rows :: "int property"
  p_x :: "int option property"
  p_y :: "int option property"
  p_minCols :: "int option property"
  p_minRows :: "int option property"
  p_maxCols :: "int option property"
  p_maxRows :: "int option property"

definition spread :: "'a \<Rightarrow> 'a property \<Rightarrow> 'a" where
  "spread old given = (case given of Absent \<Rightarrow> old | Present v \<Rightarrow> v)"

definition mergeLayout :: "WidgetLayout \<Rightarrow> PartialLayout \<Rightarrow> WidgetLayout" where
  "mergeLayout l p =
     \<lparr>cols = spread (cols l) (p_cols p),
      rows = spread (rows l) (p_rows p),
      pos_x = spread (pos_x l) (p_x p),
      pos_y = spread (pos_y l) (p_y p),
      minCols = spread (minCols l) (p_minCols p),
      minRows = spread (minRows l) (p_minRows p),
      maxCols = spread (maxCols l) (p_maxCols p),
      maxRows = spread (maxRows l) (p_maxRows p)\<rparr>"

text \<open>\<^verbatim>\<open>layout.x !== undefined\<close>, for a property of the partial layout.\<close>

definition isDefined :: "'a option property \<Rightarrow> bool" where
  "isDefined given = (case given of Absent \<Rightarrow> False | Present None \<Rightarrow> False | Present (Some v) \<Rightarrow> True)"

definition propertyInRange :: "int option property \<Rightarrow> bool" where
  "propertyInRange given = (case given of Absent \<Rightarrow> True | Present v \<Rightarrow> optionInRange v)"

definition partialInRange :: "PartialLayout \<Rightarrow> bool" where
  "partialInRange p =
     ((case p_cols p of Absent \<Rightarrow> True | Present n \<Rightarrow> inRange n)
      \<and> (case p_rows p of Absent \<Rightarrow> True | Present n \<Rightarrow> inRange n)
      \<and> propertyInRange (p_x p) \<and> propertyInRange (p_y p)
      \<and> propertyInRange (p_minCols p) \<and> propertyInRange (p_minRows p)
      \<and> propertyInRange (p_maxCols p) \<and> propertyInRange (p_maxRows p))"

text \<open>
  \<open>resolveOverlaps\<close>: radius 1 to 10, \<open>dx\<close> and \<open>dy\<close> from \<open>-radius\<close> to
  \<open>radius\<close>, the cells on the perimeter of the ring only.
\<close>

definition resolveOverlaps :: "string \<Rightarrow> WidgetLayout \<Rightarrow> DashboardConfig \<Rightarrow> WidgetLayout option" where
  "resolveOverlaps instanceId l config =
     (let originalX = orZero (pos_x l); originalY = orZero (pos_y l) in
      firstInRange
        (\<lambda>radius.
           firstInRange
             (\<lambda>dx.
                firstInRange
                  (\<lambda>dy.
                     if \<bar>dx\<bar> = radius \<or> \<bar>dy\<bar> = radius
                     then (let testLayout = at l (max 0 (originalX + dx)) (max 0 (originalY + dy))
                           in if validateLayout testLayout config
                                 \<and> \<not> hasOverlap instanceId testLayout config
                              then Some testLayout else None)
                     else None)
                  (- radius) radius)
             (- radius) radius)
        1 10)"

text \<open>
  \<open>updateWidgetLayout\<close> assigns the new layout to the widget object that \<open>find\<close>
  returned, the first of the list with that id, in place.
\<close>

definition updateWidgetLayout ::
  "nat \<Rightarrow> string \<Rightarrow> PartialLayout \<Rightarrow> LayoutManager \<Rightarrow> bool \<times> LayoutManager" where
  "updateWidgetLayout now instanceId partial s =
     (let config = dashboardConfig s in
      case find (\<lambda>w. widget_id w = instanceId) (dash_widgets config) of
        None \<Rightarrow> (False, s)
      | Some widget \<Rightarrow>
          (let previousLayout = widget_layout widget;
               updatedLayout = mergeLayout (widget_layout widget) partial
           in if \<not> validateLayout updatedLayout config then (False, s)
              else
                (case (if hasOverlap instanceId updatedLayout config
                       then resolveOverlaps instanceId updatedLayout config
                       else Some updatedLayout) of
                   None \<Rightarrow> (False, s)
                 | Some newLayout \<Rightarrow>
                     (True,
                      recordLayoutChange
                        \<lparr>change_type =
                           (if isDefined (p_x partial) \<or> isDefined (p_y partial) then Move else Resize),
                         change_instanceId = instanceId, change_layout = newLayout,
                         change_previousLayout = Some previousLayout, change_timestamp = now\<rparr>
                        (s\<lparr>dashboardConfig :=
                             config\<lparr>dash_widgets :=
                                      replaceFirst (\<lambda>w. widget_id w = instanceId)
                                        (widget\<lparr>widget_layout := newLayout\<rparr>)
                                        (dash_widgets config)\<rparr>\<rparr>)))))"

definition getWidgetLayout :: "LayoutManager \<Rightarrow> string \<Rightarrow> WidgetLayout option" where
  "getWidgetLayout s instanceId =
     map_option widget_layout
       (find (\<lambda>w. widget_id w = instanceId) (dash_widgets (dashboardConfig s)))"

text \<open>
  \<open>compactLayout\<close> sorts a copy of the widget list with the comparator
  \<open>compareByPosition\<close>. \<open>Array.prototype.sort\<close> is a stable sort; for a comparator that
  is a consistent ordering its result is that of the stable insertion sort \<open>sortBy\<close>.
\<close>

definition compareByPosition :: "DashboardWidget \<Rightarrow> DashboardWidget \<Rightarrow> int" where
  "compareByPosition a b =
     (let layoutA = widget_layout a; layoutB = widget_layout b in
      if pos_y layoutA \<noteq> pos_y layoutB then orZero (pos_y layoutA) - orZero (pos_y layoutB)
      else orZero (pos_x layoutA) - orZero (pos_x layoutB))"

fun insertSorted :: "('a \<Rightarrow> 'a \<Rightarrow> int) \<Rightarrow> 'a \<Rightarrow> 'a list \<Rightarrow> 'a list" where
  "insertSorted cmp a [] = [a]"
| "insertSorted cmp a (b # bs) =
     (if cmp a b \<le> 0 then a # b # bs else b # insertSorted cmp a bs)"

definition sortBy :: "('a \<Rightarrow> 'a \<Rightarrow> int) \<Rightarrow> 'a list \<Rightarrow> 'a list" where
  "sortBy cmp as = foldr (insertSorted cmp) as []"

text \<open>
  \<open>compactWidgets\<close> keeps the set \<open>occupiedPositions\<close> of the cells taken so far
  (its keys \<^verbatim>\<open>`${x},${y}`\<close> are the pairs); \<open>footprint\<close> is the set of cells the
  marking loops add, \<open>canPlace\<close> the check loops of \<open>findCompactPosition\<close>.
\<close>

definition footprint :: "int \<Rightarrow> int \<Rightarrow> WidgetLayout \<Rightarrow> (int \<times> int) set" where
  "footprint x y l = set (List.product [x..x + cols l - 1] [y..y + rows l - 1])"

definition canPlace :: "(int \<times> int) set \<Rightarrow> WidgetLayout \<Rightarrow> int \<Rightarrow> int \<Rightarrow> bool" where
  "canPlace occupiedPositions l x y =
     (firstInRange
        (\<lambda>checkX.
           firstInRange
             (\<lambda>checkY. if (checkX, checkY) \<in> occupiedPositions then Some () else None)
             y (y + rows l - 1))
        x (x + cols l - 1)
      = None)"

definition findCompactPosition :: "WidgetLayout \<Rightarrow> int \<Rightarrow> (int \<times> int) set \<Rightarrow> int \<times> int" where
  "findCompactPosition l gridCols occupiedPositions =
     (case firstInRange
             (\<lambda>y. firstInRange
                     (\<lambda>x. if canPlace occupiedPositions l x y then Some (x, y) else None)
                     0 (gridCols - cols l))
             0 999 of
        Some position \<Rightarrow> position
      | None \<Rightarrow> (0, 0))"

fun compactFrom :: "int \<Rightarrow> (int \<times> int) set \<Rightarrow> DashboardWidget list \<Rightarrow> DashboardWidget list" where
  "compactFrom gridCols occupiedPositions [] = []"
| "compactFrom gridCols occupiedPositions (widget # ws) =
     (let l = widget_layout widget;
          optimalPosition = findCompactPosition l gridCols occupiedPositions
      in widget\<lparr>widget_layout := at l (fst optimalPosition) (snd optimalPosition)\<rparr>
         # compactFrom gridCols
             (occupiedPositions \<union> footprint (fst optimalPosition) (snd optimalPosition) l) ws)"

definition compactWidgets :: "DashboardWidget list \<Rightarrow> DashboardConfig \<Rightarrow> DashboardWidget list" where
  "compactWidgets ws config = compactFrom (grid_cols (grid config)) {} ws"

definition compactLayout :: "LayoutManager \<Rightarrow> LayoutManager" where
  "compactLayout s =
     (let config = dashboardConfig s;
          sortedWidgets = sortBy compareByPosition (dash_widgets config)
      in s\<lparr>dashboardConfig := config\<lparr>dash_widgets := compactWidgets sortedWidgets config\<rparr>\<rparr>)"



section \<open>Layout: loops, footprints and collisions\<close>

text \<open>
  Sums and differences of numbers in range, with an offset of at most 1000, stay below
  \<open>2^53 = 9007199254740992\<close> in magnitude.
\<close>

lemma inRange_sums:
  "inRange a \<Longrightarrow> inRange b \<Longrightarrow> \<bar>d\<bar> \<le> 1000 \<Longrightarrow>
     \<bar>a + b + d\<bar> < 9007199254740992 \<and> \<bar>a - b + d\<bar> < 9007199254740992 \<and>
     (2::int) ^ 53 = 9007199254740992 \<and> (2::int) ^ 51 = 2251799813685248"
  by (simp add: inRange_def) arith

lemma firstInRange_None:
  "firstInRange body lo hi = None \<longleftrightarrow> (\<forall>v. lo \<le> v \<and> v \<le> hi \<longrightarrow> body v = None)"
proof (induction body lo hi rule: firstInRange.induct)
  case (1 body v upper)
  show ?case
  proof (cases "v \<le> upper")
    case False
    then show ?thesis by (auto simp: firstInRange.simps [of body v upper])
  next
    case True
    show ?thesis
    proof (cases "body v")
      case (Some r)
      with True show ?thesis
        by (auto simp: firstInRange.simps [of body v upper])
    next
      case None
      with True 1 have "firstInRange body v upper = None \<longleftrightarrow>
          (\<forall>u. v + 1 \<le> u \<and> u \<le> upper \<longrightarrow> body u = None)"
        by (simp add: firstInRange.simps [of body v upper])
      also have "\<dots> \<longleftrightarrow> (\<forall>u. v \<le> u \<and> u \<le> upper \<longrightarrow> body u = None)"
      proof
        assume a: "\<forall>u. v + 1 \<le> u \<and> u \<le> upper \<longrightarrow> body u = None"
        show "\<forall>u. v \<le> u \<and> u \<le> upper \<longrightarrow> body u = None"
        proof (intro allI impI)
          fix u assume "v \<le> u \<and> u \<le> upper"
          then have "u = v \<or> (v + 1 \<le> u \<and> u \<le> upper)" by arith
          with a None show "body u = None" by blast
        qed
      next
        assume "\<forall>u. v \<le> u \<and> u \<le> upper \<longrightarrow> body u = None"
        then show "\<forall>u. v + 1 \<le> u \<and> u \<le> upper \<longrightarrow> body u = None" by simp
      qed
      finally show ?thesis .
    qed
  qed
qed

lemma firstInRange_Some:
  "firstInRange body lo hi = Some r \<longleftrightarrow>
     (\<exists>v. lo \<le> v \<and> v \<le> hi \<and> body v = Some r \<and> (\<forall>u. lo \<le> u \<and> u < v \<longrightarrow> body u = None))"
proof (induction body lo hi rule: firstInRange.induct)
  case (1 body v upper)
  show ?case
  proof (cases "v \<le> upper")
    case False
    then show ?thesis by (auto simp: firstInRange.simps [of body v upper])
  next
    case True
    show ?thesis
    proof (cases "body v")
      case (Some r')
      have "(\<exists>w. v \<le> w \<and> w \<le> upper \<and> body w = Some r \<and> (\<forall>u. v \<le> u \<and> u < w \<longrightarrow> body u = None))
          \<longleftrightarrow> r' = r"
      proof
        assume "\<exists>w. v \<le> w \<and> w \<le> upper \<and> body w = Some r \<and> (\<forall>u. v \<le> u \<and> u < w \<longrightarrow> body u = None)"
        then obtain w where w: "v \<le> w" "body w = Some r" "\<forall>u. v \<le> u \<and> u < w \<longrightarrow> body u = None"
          by blast
        have "w = v"
        proof (rule ccontr)
          assume "w \<noteq> v"
          with w(1) have "v < w" by simp
          with w(3) have "body v = None" by simp
          with Some show False by simp
        qed
        with w(2) Some show "r' = r" by simp
      next
        assume "r' = r"
        with Some True show "\<exists>w. v \<le> w \<and> w \<le> upper \<and> body w = Some r \<and>
            (\<forall>u. v \<le> u \<and> u < w \<longrightarrow> body u = None)"
          by (intro exI [of _ v]) auto
      qed
      with Some True show ?thesis
        by (simp add: firstInRange.simps [of body v upper])
    next
      case None
      with True 1 have "firstInRange body v upper = Some r \<longleftrightarrow>
          (\<exists>w. v + 1 \<le> w \<and> w \<le> upper \<and> body w = Some r \<and>
               (\<forall>u. v + 1 \<le> u \<and> u < w \<longrightarrow> body u = None))"
        by (simp add: firstInRange.simps [of body v upper])
      also have "\<dots> \<longleftrightarrow> (\<exists>w. v \<le> w \<and> w \<le> upper \<and> body w = Some r \<and>
               (\<forall>u. v \<le> u \<and> u < w \<longrightarrow> body u = None))"
      proof
        assume "\<exists>w. v + 1 \<le> w \<and> w \<le> upper \<and> body w = Some r \<and>
               (\<forall>u. v + 1 \<le> u \<and> u < w \<longrightarrow> body u = None)"
        then obtain w where w: "v + 1 \<le> w" "w \<le> upper" "body w = Some r"
          "\<forall>u. v + 1 \<le> u \<and> u < w \<longrightarrow> body u = None" by blast
        have "\<forall>u. v \<le> u \<and> u < w \<longrightarrow> body u = None"
        proof (intro allI impI)
          fix u assume "v \<le> u \<and> u < w"
          then have "u = v \<or> (v + 1 \<le> u \<and> u < w)" by arith
          with w(4) None show "body u = None" by blast
        qed
        with w show "\<exists>w. v \<le> w \<and> w \<le> upper \<and> body w = Some r \<and>
               (\<forall>u. v \<le> u \<and> u < w \<longrightarrow> body u = None)"
          by (intro exI [of _ w]) simp
      next
        assume "\<exists>w. v \<le> w \<and> w \<le> upper \<and> body w = Some r \<and>
               (\<forall>u. v \<le> u \<and> u < w \<longrightarrow> body u = None)"
        then obtain w where w: "v \<le> w" "w \<le> upper" "body w = Some r"
          "\<forall>u. v \<le> u \<and> u < w \<longrightarrow> body u = None" by blast
        from w(3) None have "w \<noteq> v" by auto
        with w(1) have "v + 1 \<le> w" by simp
        with w show "\<exists>w. v + 1 \<le> w \<and> w \<le> upper \<and> body w = Some r \<and>
               (\<forall>u. v + 1 \<le> u \<and> u < w \<longrightarrow> body u = None)"
          by (intro exI [of _ w]) simp
      qed
      finally show ?thesis .
    qed
  qed
qed

text \<open>The row-major scan shared by \<open>findOptimalPosition\<close> and \<open>findCompactPosition\<close>.\<close>

definition gridScan :: "(int \<Rightarrow> int \<Rightarrow> bool) \<Rightarrow> int \<Rightarrow> (int \<times> int) option" where
  "gridScan free lastX =
     firstInRange (\<lambda>y. firstInRange (\<lambda>x. if free x y then Some (x, y) else None) 0 lastX) 0 999"

lemma rowScan_None:
  "firstInRange (\<lambda>x. if free x y then Some (x, y) else None) 0 lastX = None \<longleftrightarrow>
     (\<forall>x. 0 \<le> x \<and> x \<le> lastX \<longrightarrow> \<not> free x y)"
  by (auto simp: firstInRange_None)

lemma rowScan_Some:
  "firstInRange (\<lambda>x. if free x y then Some (x, y) else None) 0 lastX = Some p \<longleftrightarrow>
     (snd p = y \<and> 0 \<le> fst p \<and> fst p \<le> lastX \<and> free (fst p) y \<and>
      (\<forall>u. 0 \<le> u \<and> u < fst p \<longrightarrow> \<not> free u y))"
  by (cases p) (auto simp: firstInRange_Some)

lemma gridScan_None:
  "gridScan free lastX = None \<longleftrightarrow>
     (\<forall>x y. 0 \<le> y \<and> y \<le> 999 \<and> 0 \<le> x \<and> x \<le> lastX \<longrightarrow> \<not> free x y)"
proof -
  let ?row = "\<lambda>y. firstInRange (\<lambda>x. if free x y then Some (x, y) else None) 0 lastX"
  have "gridScan free lastX = None \<longleftrightarrow> (\<forall>y. 0 \<le> y \<and> y \<le> 999 \<longrightarrow> ?row y = None)"
    unfolding gridScan_def by (rule firstInRange_None)
  also have "\<dots> \<longleftrightarrow> (\<forall>y. 0 \<le> y \<and> y \<le> 999 \<longrightarrow> (\<forall>x. 0 \<le> x \<and> x \<le> lastX \<longrightarrow> \<not> free x y))"
    by (simp only: rowScan_None)
  also have "\<dots> \<longleftrightarrow> (\<forall>x y. 0 \<le> y \<and> y \<le> 999 \<and> 0 \<le> x \<and> x \<le> lastX \<longrightarrow> \<not> free x y)"
    by blast
  finally show ?thesis .
qed

lemma gridScan_Some:
  "gridScan free lastX = Some (x, y) \<longleftrightarrow>
     (0 \<le> y \<and> y \<le> 999 \<and> 0 \<le> x \<and> x \<le> lastX \<and> free x y \<and>
      (\<forall>u. 0 \<le> u \<and> u < x \<longrightarrow> \<not> free u y) \<and>
      (\<forall>u v. 0 \<le> v \<and> v < y \<and> 0 \<le> u \<and> u \<le> lastX \<longrightarrow> \<not> free u v))"
  (is "?L \<longleftrightarrow> ?R")
proof
  let ?row = "\<lambda>y. firstInRange (\<lambda>x. if free x y then Some (x, y) else None) 0 lastX"
  assume ?L
  then have "\<exists>v. 0 \<le> v \<and> v \<le> 999 \<and> ?row v = Some (x, y) \<and>
      (\<forall>u. 0 \<le> u \<and> u < v \<longrightarrow> ?row u = None)"
    unfolding gridScan_def by (simp only: firstInRange_Some [of ?row 0 999 "(x, y)"])
  then obtain v where v: "0 \<le> v" "v \<le> 999" "?row v = Some (x, y)"
    "\<forall>u. 0 \<le> u \<and> u < v \<longrightarrow> ?row u = None"
    by blast
  from v(3) have "snd (x, y) = v \<and> 0 \<le> fst (x, y) \<and> fst (x, y) \<le> lastX \<and> free (fst (x, y)) v \<and>
      (\<forall>u. 0 \<le> u \<and> u < fst (x, y) \<longrightarrow> \<not> free u v)"
    by (rule rowScan_Some [THEN iffD1])
  then have row: "y = v" "0 \<le> x" "x \<le> lastX" "free x v"
    "\<forall>u. 0 \<le> u \<and> u < x \<longrightarrow> \<not> free u v"
    by simp_all
  from v(4) have "\<forall>u w. 0 \<le> w \<and> w < v \<and> 0 \<le> u \<and> u \<le> lastX \<longrightarrow> \<not> free u w"
    by (simp only: rowScan_None) blast
  with v(1,2) row show ?R by simp
next
  let ?row = "\<lambda>y. firstInRange (\<lambda>x. if free x y then Some (x, y) else None) 0 lastX"
  assume r: ?R
  then have "snd (x, y) = y \<and> 0 \<le> fst (x, y) \<and> fst (x, y) \<le> lastX \<and> free (fst (x, y)) y \<and>
      (\<forall>u. 0 \<le> u \<and> u < fst (x, y) \<longrightarrow> \<not> free u y)"
    by simp
  then have "?row y = Some (x, y)"
    by (rule rowScan_Some [THEN iffD2])
  moreover from r have "\<forall>u. 0 \<le> u \<and> u < y \<longrightarrow> ?row u = None"
    by (simp only: rowScan_None) blast
  ultimately have "\<exists>v. 0 \<le> v \<and> v \<le> 999 \<and> ?row v = Some (x, y) \<and>
      (\<forall>u. 0 \<le> u \<and> u < v \<longrightarrow> ?row u = None)"
    using r by (intro exI [of _ y]) simp
  then show ?L
    unfolding gridScan_def by (simp only: firstInRange_Some [of ?row 0 999 "(x, y)"])
qed


text \<open>
  The position a layout denotes, the cells a layout covers, and collision freedom of a
  widget list: no widget overlaps a later one (\<open>overlaps\<close> is symmetric).
\<close>

definition xOf :: "WidgetLayout \<Rightarrow> int" where
  "xOf l = orZero (pos_x l)"

definition yOf :: "WidgetLayout \<Rightarrow> int" where
  "yOf l = orZero (pos_y l)"

fun collisionFree :: "DashboardWidget list \<Rightarrow> bool" where
  "collisionFree [] = True"
| "collisionFree (w # ws) =
     ((\<forall>v \<in> set ws. \<not> overlaps (widget_layout w) (widget_layout v)) \<and> collisionFree ws)"

lemma overlaps_iff:
  "overlaps l w \<longleftrightarrow>
     xOf l < xOf w + cols w \<and> xOf w < xOf l + cols l \<and>
     yOf l < yOf w + rows w \<and> yOf w < yOf l + rows l"
  by (auto simp: overlaps_def xOf_def yOf_def Let_def)

lemma overlaps_sym: "overlaps l w \<longleftrightarrow> overlaps w l"
  by (auto simp: overlaps_iff)

lemma at_fields [simp]:
  "xOf (at l x y) = x" "yOf (at l x y) = y" "cols (at l x y) = cols l" "rows (at l x y) = rows l"
  by (simp_all add: at_def xOf_def yOf_def orZero_def)

lemma in_footprint:
  "(cx, cy) \<in> footprint x y l \<longleftrightarrow> x \<le> cx \<and> cx < x + cols l \<and> y \<le> cy \<and> cy < y + rows l"
  by (auto simp: footprint_def)

definition cells :: "WidgetLayout \<Rightarrow> (int \<times> int) set" where
  "cells l = footprint (xOf l) (yOf l) l"

lemma cells_at [simp]: "cells (at l x y) = footprint x y l"
  by (auto simp: cells_def in_footprint)

lemma overlaps_cells:
  assumes "1 \<le> cols l" "1 \<le> rows l" "1 \<le> cols w" "1 \<le> rows w"
  shows "overlaps l w \<longleftrightarrow> cells l \<inter> cells w \<noteq> {}"
proof
  assume o: "overlaps l w"
  let ?c = "(max (xOf l) (xOf w), max (yOf l) (yOf w))"
  from o assms have "?c \<in> cells l" "?c \<in> cells w"
    by (auto simp: overlaps_iff cells_def in_footprint)
  then show "cells l \<inter> cells w \<noteq> {}" by blast
next
  assume "cells l \<inter> cells w \<noteq> {}"
  then obtain cx cy where "(cx, cy) \<in> cells l" "(cx, cy) \<in> cells w" by auto
  then show "overlaps l w"
    by (auto simp: overlaps_iff cells_def in_footprint)
qed

lemma canPlace_iff: "canPlace occ l x y \<longleftrightarrow> footprint x y l \<inter> occ = {}"
proof -
  have "canPlace occ l x y \<longleftrightarrow>
      (\<forall>cx. x \<le> cx \<and> cx \<le> x + cols l - 1 \<longrightarrow>
         (\<forall>cy. y \<le> cy \<and> cy \<le> y + rows l - 1 \<longrightarrow> (cx, cy) \<notin> occ))"
    unfolding canPlace_def by (auto simp: firstInRange_None)
  also have "\<dots> \<longleftrightarrow> (\<forall>cx cy. (cx, cy) \<in> footprint x y l \<longrightarrow> (cx, cy) \<notin> occ)"
    by (auto simp: in_footprint)
  also have "\<dots> \<longleftrightarrow> footprint x y l \<inter> occ = {}"
    by auto
  finally show ?thesis .
qed

lemma collisionFree_snoc:
  "collisionFree (ws @ [w]) \<longleftrightarrow>
     collisionFree ws \<and> (\<forall>v \<in> set ws. \<not> overlaps (widget_layout v) (widget_layout w))"
  by (induction ws) auto

lemma foldr_max_ge: "n \<in> set ns \<Longrightarrow> n \<le> foldr max ns (0::int)"
  by (induction ns) auto

lemma hasOverlap_iff:
  "hasOverlap i l config \<longleftrightarrow>
     (\<exists>w \<in> set (dash_widgets config). widget_id w \<noteq> i \<and> overlaps l (widget_layout w))"
  by (auto simp: hasOverlap_def list_ex_iff)

lemma findOptimalPosition_free:
  "\<not> hasOverlap [] (at l (fst (findOptimalPosition l config)) (snd (findOptimalPosition l config)))
       config"
proof -
  let ?free = "\<lambda>x y. \<not> hasOverlap [] (at l x y) config"
  let ?lastX = "grid_cols (grid config) - cols l"
  let ?bottom = "foldr max
      (map (\<lambda>w. orZero (pos_y (widget_layout w)) + rows (widget_layout w)) (dash_widgets config)) 0"
  have fop: "findOptimalPosition l config =
      (case gridScan ?free ?lastX of Some position \<Rightarrow> position | None \<Rightarrow> (0, ?bottom))"
    by (simp add: findOptimalPosition_def gridScan_def Let_def)
  show ?thesis
  proof (cases "gridScan ?free ?lastX")
    case (Some p)
    obtain x y where p: "p = (x, y)" by (cases p)
    with Some have "?free x y" by (simp add: gridScan_Some)
    with Some p fop show ?thesis by simp
  next
    case None
    have "\<not> overlaps (at l 0 ?bottom) (widget_layout w)" if "w \<in> set (dash_widgets config)" for w
    proof -
      from that have "yOf (widget_layout w) + rows (widget_layout w) \<le> ?bottom"
        by (intro foldr_max_ge) (auto simp: yOf_def)
      then show ?thesis by (simp add: overlaps_iff)
    qed
    then have "\<not> hasOverlap [] (at l 0 ?bottom) config"
      by (auto simp: hasOverlap_iff)
    with None fop show ?thesis by simp
  qed
qed


lemma recordLayoutChange_config [simp]:
  "dashboardConfig (recordLayoutChange change s) = dashboardConfig s"
  by (simp add: recordLayoutChange_def Let_def)

lemma set_insertSorted [simp]: "set (insertSorted cmp a bs) = insert a (set bs)"
  by (induction bs) auto

lemma set_sortBy [simp]: "set (sortBy cmp as) = set as"
  unfolding sortBy_def by (induction as) auto

lemma distinct_map_insertSorted [simp]:
  "distinct (map f (insertSorted cmp a bs)) \<longleftrightarrow> f a \<notin> f ` set bs \<and> distinct (map f bs)"
  by (induction bs) auto

lemma distinct_map_sortBy [simp]: "distinct (map f (sortBy cmp as)) \<longleftrightarrow> distinct (map f as)"
proof (induction as)
  case Nil
  show ?case by (simp add: sortBy_def)
next
  case (Cons a as)
  have "sortBy cmp (a # as) = insertSorted cmp a (sortBy cmp as)" by (simp add: sortBy_def)
  with Cons show ?case by simp
qed

lemma sum_list_insertSorted [simp]:
  "sum_list (map f (insertSorted cmp a bs)) = (f a :: int) + sum_list (map f bs)"
  by (induction bs) auto

lemma sum_list_sortBy [simp]: "sum_list (map f (sortBy cmp as)) = (sum_list (map f as) :: int)"
  unfolding sortBy_def by (induction as) auto

lemma compactFrom_ids [simp]: "map widget_id (compactFrom g occ ws) = map widget_id ws"
  by (induction ws arbitrary: occ) (simp_all add: Let_def)

lemma compactFrom_spans:
  "v \<in> set (compactFrom g occ ws) \<Longrightarrow>
     \<exists>w \<in> set ws. cols (widget_layout v) = cols (widget_layout w) \<and>
                  rows (widget_layout v) = rows (widget_layout w)"
proof (induction ws arbitrary: occ)
  case Nil
  then show ?case by simp
next
  case (Cons w ws)
  then show ?case by (auto simp: Let_def)
qed

lemma findCompactPosition_gridScan:
  "findCompactPosition l g occ =
     (case gridScan (canPlace occ l) (g - cols l) of Some position \<Rightarrow> position | None \<Rightarrow> (0, 0))"
  by (simp add: findCompactPosition_def gridScan_def)

lemma findCompactPosition_below:
  assumes span: "1 \<le> cols l" "cols l \<le> g" "1 \<le> rows l"
    and below: "\<forall>c \<in> occ. snd c < H" and H: "0 \<le> H" "H \<le> 999"
  shows "\<exists>x y. findCompactPosition l g occ = (x, y) \<and> footprint x y l \<inter> occ = {} \<and>
           0 \<le> y \<and> y \<le> H"
proof -
  have free: "canPlace occ l 0 H"
    using below by (auto simp: canPlace_iff in_footprint)
  have "gridScan (canPlace occ l) (g - cols l) \<noteq> None"
  proof
    assume "gridScan (canPlace occ l) (g - cols l) = None"
    then have "\<not> canPlace occ l 0 H"
      using H span by (simp add: gridScan_None)
    with free show False by simp
  qed
  then obtain x y where found: "gridScan (canPlace occ l) (g - cols l) = Some (x, y)" by auto
  then have props: "0 \<le> y" "canPlace occ l x y"
    "\<forall>u v. 0 \<le> v \<and> v < y \<and> 0 \<le> u \<and> u \<le> g - cols l \<longrightarrow> \<not> canPlace occ l u v"
    by (simp_all add: gridScan_Some)
  have "y \<le> H"
  proof (rule ccontr)
    assume "\<not> y \<le> H"
    with props(3) H span have "\<not> canPlace occ l 0 H" by simp
    with free show False by simp
  qed
  with found props show ?thesis
    by (simp add: findCompactPosition_gridScan canPlace_iff)
qed

lemma sum_rows_nonneg:
  "\<forall>w \<in> set ws. 1 \<le> rows (widget_layout w) \<Longrightarrow> 0 \<le> sum_list (map (\<lambda>w. rows (widget_layout w)) ws)"
  by (induction ws) auto

lemma compactFrom_collisionFree:
  assumes "\<forall>w \<in> set ws. 1 \<le> cols (widget_layout w) \<and> cols (widget_layout w) \<le> g
              \<and> 1 \<le> rows (widget_layout w)"
    and "\<forall>c \<in> occ. snd c < H" and "0 \<le> H"
    and "H + sum_list (map (\<lambda>w. rows (widget_layout w)) ws) \<le> 1000"
  shows "collisionFree (compactFrom g occ ws) \<and>
         (\<forall>v \<in> set (compactFrom g occ ws). cells (widget_layout v) \<inter> occ = {})"
  using assms
proof (induction ws arbitrary: occ H)
  case Nil
  then show ?case by simp
next
  case (Cons w ws)
  let ?l = "widget_layout w"
  from Cons.prems(1) have span: "1 \<le> cols ?l" "cols ?l \<le> g" "1 \<le> rows ?l"
    and rest_span: "\<forall>v \<in> set ws. 1 \<le> cols (widget_layout v) \<and> cols (widget_layout v) \<le> g
              \<and> 1 \<le> rows (widget_layout v)"
    by simp_all
  from rest_span have nonneg: "0 \<le> sum_list (map (\<lambda>w. rows (widget_layout w)) ws)"
    by (intro sum_rows_nonneg) simp
  with Cons.prems(4) span have H999: "H \<le> 999" by simp
  from findCompactPosition_below [OF span Cons.prems(2) Cons.prems(3) H999]
  obtain x y where pos: "findCompactPosition ?l g occ = (x, y)"
    and free: "footprint x y ?l \<inter> occ = {}" and y: "0 \<le> y" "y \<le> H" by blast
  let ?occ' = "occ \<union> footprint x y ?l"
  let ?H' = "H + rows ?l"
  have below': "\<forall>c \<in> ?occ'. snd c < ?H'"
    using Cons.prems(2) y span by (auto simp: in_footprint)
  have H': "0 \<le> ?H'" using Cons.prems(3) span by simp
  have budget: "?H' + sum_list (map (\<lambda>w. rows (widget_layout w)) ws) \<le> 1000"
    using Cons.prems(4) by simp
  from Cons.IH [OF rest_span below' H' budget]
  have ih: "collisionFree (compactFrom g ?occ' ws)"
    "\<forall>v \<in> set (compactFrom g ?occ' ws). cells (widget_layout v) \<inter> ?occ' = {}" by simp_all
  have unfold: "compactFrom g occ (w # ws) =
      w\<lparr>widget_layout := at ?l x y\<rparr> # compactFrom g ?occ' ws"
    by (simp add: pos Let_def)
  have no_overlap: "\<not> overlaps (at ?l x y) (widget_layout v)"
    if v: "v \<in> set (compactFrom g ?occ' ws)" for v
  proof -
    from compactFrom_spans [OF v] rest_span
    have vspan: "1 \<le> cols (widget_layout v)" "1 \<le> rows (widget_layout v)" by auto
    from ih(2) v have "cells (widget_layout v) \<inter> footprint x y ?l = {}" by blast
    then have "cells (at ?l x y) \<inter> cells (widget_layout v) = {}" by auto
    then show ?thesis
      using overlaps_cells [of "at ?l x y" "widget_layout v"] span vspan by simp
  qed
  have "collisionFree (compactFrom g occ (w # ws))"
    using ih(1) no_overlap unfolding unfold by simp
  moreover have "\<forall>v \<in> set (compactFrom g occ (w # ws)). cells (widget_layout v) \<inter> occ = {}"
    using ih(2) free unfolding unfold by auto
  ultimately show ?case by blast
qed



section \<open>Layout: the collision-free invariant\<close>

text \<open>
  Sequences of \<open>addWidget\<close>, \<open>updateWidgetLayout\<close> and \<open>compactLayout\<close> calls.
  A call is admissible when, at the time of the call, every number stored in the
  dashboard and every number passed to the call is in range, and the call is an
  \<open>addWidget\<close> without a position argument for an instance with a fresh, non-empty
  id, any \<open>updateWidgetLayout\<close>, or a \<open>compactLayout\<close> on widgets that each have a
  defined \<open>y\<close> (the comparator of the sort is then a consistent ordering) and span
  at least one row and between one and \<open>gridCols\<close> columns, with at most 1000 rows
  in all. \<open>wellPlaced\<close> is the invariant: no two widgets collide and the ids are
  pairwise distinct and non-empty.
\<close>

datatype LayoutCall =
    AddWidget DashboardWidget "(int \<times> int) option"
  | UpdateWidgetLayout string PartialLayout
  | CompactLayout

fun layoutCall :: "nat \<Rightarrow> LayoutCall \<Rightarrow> LayoutManager \<Rightarrow> LayoutManager" where
  "layoutCall now (AddWidget inst position) s = addWidget now inst position s"
| "layoutCall now (UpdateWidgetLayout instanceId partial) s =
     snd (updateWidgetLayout now instanceId partial s)"
| "layoutCall now CompactLayout s = compactLayout s"

definition widgetsOf :: "LayoutManager \<Rightarrow> DashboardWidget list" where
  "widgetsOf s = dash_widgets (dashboardConfig s)"

fun admissible :: "LayoutCall \<Rightarrow> LayoutManager \<Rightarrow> bool" where
  "admissible (AddWidget inst position) s =
     (managerInRange s \<and> layoutInRange (widget_layout inst)
      \<and> position = None \<and> widget_id inst \<noteq> [] \<and> widget_id inst \<notin> set (map widget_id (widgetsOf s)))"
| "admissible (UpdateWidgetLayout instanceId partial) s =
     (managerInRange s \<and> partialInRange partial)"
| "admissible CompactLayout s =
     (managerInRange s
      \<and> list_all (\<lambda>w. pos_y (widget_layout w) \<noteq> None) (widgetsOf s)
      \<and> list_all (\<lambda>w. 1 \<le> cols (widget_layout w)
                    \<and> cols (widget_layout w) \<le> grid_cols (grid (dashboardConfig s))
                    \<and> 1 \<le> rows (widget_layout w)) (widgetsOf s)
      \<and> sum_list (map (\<lambda>w. rows (widget_layout w)) (widgetsOf s)) \<le> 1000)"

fun layoutCalls :: "nat \<Rightarrow> LayoutCall list \<Rightarrow> LayoutManager \<Rightarrow> LayoutManager" where
  "layoutCalls now [] s = s"
| "layoutCalls now (c # cs) s = layoutCalls now cs (layoutCall now c s)"

fun admissibleCalls :: "nat \<Rightarrow> LayoutCall list \<Rightarrow> LayoutManager \<Rightarrow> bool" where
  "admissibleCalls now [] s = True"
| "admissibleCalls now (c # cs) s = (admissible c s \<and> admissibleCalls now cs (layoutCall now c s))"

definition wellPlaced :: "LayoutManager \<Rightarrow> bool" where
  "wellPlaced s =
     (collisionFree (widgetsOf s) \<and> distinct (map widget_id (widgetsOf s))
      \<and> [] \<notin> set (map widget_id (widgetsOf s)))"

lemma widgetsOf_addWidget:
  "widgetsOf (addWidget now inst position s) =
     widgetsOf s @
       [inst\<lparr>widget_layout :=
          (case position of
             None \<Rightarrow> at (widget_layout inst)
                       (fst (findOptimalPosition (widget_layout inst) (dashboardConfig s)))
                       (snd (findOptimalPosition (widget_layout inst) (dashboardConfig s)))
           | Some given \<Rightarrow> at (widget_layout inst) (fst given) (snd given))\<rparr>]"
  by (simp add: addWidget_def widgetsOf_def Let_def split: option.splits)

lemma wellPlaced_addWidget:
  assumes "wellPlaced s" "admissible (AddWidget inst position) s"
  shows "wellPlaced (addWidget now inst position s)"
proof -
  let ?p = "findOptimalPosition (widget_layout inst) (dashboardConfig s)"
  let ?l = "at (widget_layout inst) (fst ?p) (snd ?p)"
  from assms(2) have none: "position = None" and fresh: "widget_id inst \<noteq> []"
    "widget_id inst \<notin> set (map widget_id (widgetsOf s))" by simp_all
  have ws: "widgetsOf (addWidget now inst position s) = widgetsOf s @ [inst\<lparr>widget_layout := ?l\<rparr>]"
    by (simp add: widgetsOf_addWidget none)
  have "\<not> hasOverlap [] ?l (dashboardConfig s)" by (rule findOptimalPosition_free)
  then have "\<forall>v \<in> set (widgetsOf s). widget_id v \<noteq> [] \<longrightarrow> \<not> overlaps ?l (widget_layout v)"
    by (auto simp: hasOverlap_iff widgetsOf_def)
  moreover from assms(1) have "\<forall>v \<in> set (widgetsOf s). widget_id v \<noteq> []"
    by (auto simp: wellPlaced_def image_iff)
  ultimately have "\<forall>v \<in> set (widgetsOf s). \<not> overlaps (widget_layout v) ?l"
    using overlaps_sym by blast
  with assms(1) fresh show ?thesis
    by (auto simp: wellPlaced_def ws collisionFree_snoc)
qed

lemma resolveOverlaps_Some:
  assumes "resolveOverlaps i l config = Some t"
  shows "validateLayout t config \<and> \<not> hasOverlap i t config"
proof -
  let ?ox = "orZero (pos_x l)" and ?oy = "orZero (pos_y l)"
  let ?cell = "\<lambda>radius dx dy.
      if \<bar>dx\<bar> = radius \<or> \<bar>dy\<bar> = radius
      then (let testLayout = at l (max 0 (?ox + dx)) (max 0 (?oy + dy))
            in if validateLayout testLayout config \<and> \<not> hasOverlap i testLayout config
               then Some testLayout else None)
      else None"
  let ?column = "\<lambda>radius dx. firstInRange (?cell radius dx) (- radius) radius"
  let ?ring = "\<lambda>radius. firstInRange (?column radius) (- radius) radius"
  from assms have "firstInRange ?ring 1 10 = Some t"
    by (simp add: resolveOverlaps_def Let_def)
  then obtain radius where "?ring radius = Some t"
    by (simp only: firstInRange_Some [of ?ring]) blast
  then obtain dx where "?column radius dx = Some t"
    by (simp only: firstInRange_Some [of "?column radius"]) blast
  then obtain dy where "?cell radius dx dy = Some t"
    by (simp only: firstInRange_Some [of "?cell radius dx"]) blast
  then show ?thesis
    by (auto simp: Let_def split: if_splits)
qed

lemma updateWidgetLayout_False:
  "\<not> fst (updateWidgetLayout now i partial s) \<Longrightarrow> snd (updateWidgetLayout now i partial s) = s"
  by (auto simp: updateWidgetLayout_def Let_def split: option.splits if_splits)

lemma updateWidgetLayout_True:
  assumes "fst (updateWidgetLayout now i partial s)"
  shows "\<exists>w t. find (\<lambda>w. widget_id w = i) (widgetsOf s) = Some w \<and>
           \<not> hasOverlap i t (dashboardConfig s) \<and> validateLayout t (dashboardConfig s) \<and>
           widgetsOf (snd (updateWidgetLayout now i partial s)) =
             replaceFirst (\<lambda>w. widget_id w = i) (w\<lparr>widget_layout := t\<rparr>) (widgetsOf s)"
proof -
  let ?config = "dashboardConfig s"
  from assms obtain w where w: "find (\<lambda>w. widget_id w = i) (dash_widgets ?config) = Some w"
    by (auto simp: updateWidgetLayout_def Let_def split: option.splits)
  let ?u = "mergeLayout (widget_layout w) partial"
  from assms w have valid: "validateLayout ?u ?config"
    by (auto simp: updateWidgetLayout_def Let_def split: option.splits if_splits)
  let ?choice = "if hasOverlap i ?u ?config then resolveOverlaps i ?u ?config else Some ?u"
  from assms w valid obtain t where t: "?choice = Some t"
    by (auto simp: updateWidgetLayout_def Let_def split: option.splits if_splits)
  have ok: "\<not> hasOverlap i t ?config \<and> validateLayout t ?config"
  proof (cases "hasOverlap i ?u ?config")
    case True
    with t have "resolveOverlaps i ?u ?config = Some t" by simp
    from resolveOverlaps_Some [OF this] show ?thesis by simp
  next
    case False
    with t valid show ?thesis by simp
  qed
  have "widgetsOf (snd (updateWidgetLayout now i partial s)) =
      replaceFirst (\<lambda>w. widget_id w = i) (w\<lparr>widget_layout := t\<rparr>) (widgetsOf s)"
    using w valid t by (simp add: updateWidgetLayout_def Let_def widgetsOf_def)
  with w ok show ?thesis by (auto simp: widgetsOf_def)
qed

lemma find_id: "find (\<lambda>w. widget_id w = i) ws = Some w \<Longrightarrow> widget_id w = i \<and> w \<in> set ws"
  by (induction ws) (auto split: if_splits)

lemma replaceFirst_ids:
  "widget_id new = i \<Longrightarrow>
     map widget_id (replaceFirst (\<lambda>w. widget_id w = i) new ws) = map widget_id ws"
  by (induction ws) auto

lemma set_replaceFirst:
  "set (replaceFirst P new ws) \<subseteq> insert new (set ws)"
  by (induction ws) auto

lemma collisionFree_replaceFirst:
  assumes "collisionFree ws" "distinct (map widget_id ws)" "widget_id new = i"
    and "\<forall>v \<in> set ws. widget_id v \<noteq> i \<longrightarrow> \<not> overlaps (widget_layout new) (widget_layout v)"
  shows "collisionFree (replaceFirst (\<lambda>w. widget_id w = i) new ws)"
  using assms
proof (induction ws)
  case Nil
  then show ?case by simp
next
  case (Cons a ws)
  show ?case
  proof (cases "widget_id a = i")
    case True
    with Cons.prems(2) have "\<forall>v \<in> set ws. widget_id v \<noteq> i" by (auto simp: image_iff)
    with Cons.prems True show ?thesis by auto
  next
    case False
    from Cons have ih: "collisionFree (replaceFirst (\<lambda>w. widget_id w = i) new ws)" by simp
    have "\<not> overlaps (widget_layout a) (widget_layout v)"
      if "v \<in> set (replaceFirst (\<lambda>w. widget_id w = i) new ws)" for v
    proof -
      from that set_replaceFirst have "v = new \<or> v \<in> set ws" by fastforce
      then show ?thesis
      proof
        assume "v = new"
        with Cons.prems(4) False show ?thesis using overlaps_sym by auto
      next
        assume "v \<in> set ws"
        with Cons.prems(1) show ?thesis by simp
      qed
    qed
    with ih False show ?thesis by simp
  qed
qed

lemma wellPlaced_updateWidgetLayout:
  assumes "wellPlaced s"
  shows "wellPlaced (snd (updateWidgetLayout now i partial s))"
proof (cases "fst (updateWidgetLayout now i partial s)")
  case False
  from updateWidgetLayout_False [OF False] assms show ?thesis by simp
next
  case True
  from updateWidgetLayout_True [OF True] obtain w t where
    w: "find (\<lambda>w. widget_id w = i) (widgetsOf s) = Some w"
    and free: "\<not> hasOverlap i t (dashboardConfig s)"
    and ws: "widgetsOf (snd (updateWidgetLayout now i partial s)) =
             replaceFirst (\<lambda>w. widget_id w = i) (w\<lparr>widget_layout := t\<rparr>) (widgetsOf s)"
    by blast
  from find_id [OF w] have wid: "widget_id (w\<lparr>widget_layout := t\<rparr>) = i" by simp
  from free have noov: "\<forall>v \<in> set (widgetsOf s). widget_id v \<noteq> i \<longrightarrow>
      \<not> overlaps (widget_layout (w\<lparr>widget_layout := t\<rparr>)) (widget_layout v)"
    by (auto simp: hasOverlap_iff widgetsOf_def)
  from assms have cf: "collisionFree (widgetsOf s)" and d: "distinct (map widget_id (widgetsOf s))"
    and ne: "[] \<notin> set (map widget_id (widgetsOf s))"
    by (simp_all add: wellPlaced_def)
  from collisionFree_replaceFirst [OF cf d wid noov] replaceFirst_ids [OF wid, of "widgetsOf s"] d ne
  show ?thesis
    unfolding wellPlaced_def ws by simp
qed

lemma widgetsOf_compactLayout:
  "widgetsOf (compactLayout s) =
     compactFrom (grid_cols (grid (dashboardConfig s))) {}
       (sortBy compareByPosition (widgetsOf s))"
  by (simp add: compactLayout_def compactWidgets_def widgetsOf_def Let_def)

lemma wellPlaced_compactLayout:
  assumes "wellPlaced s" "admissible CompactLayout s"
  shows "wellPlaced (compactLayout s)"
proof -
  let ?g = "grid_cols (grid (dashboardConfig s))"
  let ?sorted = "sortBy compareByPosition (widgetsOf s)"
  from assms(2) have span: "\<forall>w \<in> set ?sorted. 1 \<le> cols (widget_layout w)
      \<and> cols (widget_layout w) \<le> ?g \<and> 1 \<le> rows (widget_layout w)"
    and budget: "0 + sum_list (map (\<lambda>w. rows (widget_layout w)) ?sorted) \<le> 1000"
    by (simp_all add: list_all_iff)
  have "collisionFree (compactFrom ?g {} ?sorted)"
    using compactFrom_collisionFree [OF span _ _ budget, of "{}"] by simp
  moreover have "map widget_id (compactFrom ?g {} ?sorted) = map widget_id ?sorted" by simp
  moreover from assms(1) have "distinct (map widget_id ?sorted)"
    "[] \<notin> set (map widget_id ?sorted)"
    by (simp_all add: wellPlaced_def)
  ultimately show ?thesis
    by (simp add: wellPlaced_def widgetsOf_compactLayout del: compactFrom_ids)
qed

lemma wellPlaced_layoutCall:
  "wellPlaced s \<Longrightarrow> admissible c s \<Longrightarrow> wellPlaced (layoutCall now c s)"
  by (cases c)
    (simp_all add: wellPlaced_addWidget wellPlaced_updateWidgetLayout wellPlaced_compactLayout
      del: admissible.simps)

definition plainLayout :: "int \<Rightarrow> int \<Rightarrow> WidgetLayout" where
  "plainLayout c r =
     \<lparr>cols = c, rows = r, pos_x = None, pos_y = None, minCols = None, minRows = None,
      maxCols = None, maxRows = None\<rparr>"

definition noChange :: PartialLayout where
  "noChange =
     \<lparr>p_cols = Absent, p_rows = Absent, p_x = Absent, p_y = Absent, p_minCols = Absent,
      p_minRows = Absent, p_maxCols = Absent, p_maxRows = Absent\<rparr>"

definition moveTo :: "int \<Rightarrow> int \<Rightarrow> PartialLayout" where
  "moveTo x y = noChange\<lparr>p_x := Present (Some x), p_y := Present (Some y)\<rparr>"

definition widgetA :: DashboardWidget where
  "widgetA = \<lparr>widget_id = ''a'', widget_layout = plainLayout 2 2\<rparr>"

definition widgetB :: DashboardWidget where
  "widgetB = \<lparr>widget_id = ''b'', widget_layout = plainLayout 11 1\<rparr>"

definition wideA :: DashboardWidget where
  "wideA = \<lparr>widget_id = ''a'', widget_layout = plainLayout 13 1\<rparr>"

definition wideB :: DashboardWidget where
  "wideB = \<lparr>widget_id = ''b'', widget_layout = plainLayout 13 1\<rparr>"

lemmas layout_defs =
  addWidget_def hasOverlap_def overlaps_def orZero_def at_def
  recordLayoutChange_def newLayoutManager_def defaultGridConfig_def plainLayout_def Let_def
  compactLayout_def compactWidgets_def footprint_def
  sortBy_def compareByPosition_def widgetsOf_def updateWidgetLayout_def mergeLayout_def
  spread_def validateLayout_def declared_def moveTo_def noChange_def wellPlaced_def

lemmas range_defs =
  managerInRange_def layoutInRange_def partialInRange_def propertyInRange_def optionInRange_def
  inRange_def

lemmas scan_defs =
  findOptimalPosition_def findCompactPosition_def canPlace_def resolveOverlaps_def
  firstInRange.simps

lemma findOptimalPosition_too_wide:
  assumes "grid_cols (grid config) < cols l"
  shows "findOptimalPosition l config =
     (0, foldr max
           (map (\<lambda>w. orZero (pos_y (widget_layout w)) + rows (widget_layout w))
              (dash_widgets config)) 0)"
proof -
  have "gridScan (\<lambda>x y. \<not> hasOverlap [] (at l x y) config) (grid_cols (grid config) - cols l) = None"
    using assms by (auto simp: gridScan_None)
  then show ?thesis
    by (simp add: findOptimalPosition_def gridScan_def Let_def)
qed

lemma findCompactPosition_too_wide:
  assumes "g < cols l"
  shows "findCompactPosition l g occ = (0, 0)"
proof -
  have "gridScan (canPlace occ l) (g - cols l) = None"
    using assms by (auto simp: gridScan_None)
  then show ?thesis by (simp add: findCompactPosition_gridScan)
qed


text \<open>
  C1, as stated, fails. \<open>addWidget\<close> with an explicit position stores the position
  unchecked: two widgets added at \<open>(0, 0)\<close> collide. \<open>compactLayout\<close> falls back to
  \<open>(0, 0)\<close> when it finds no place: two widgets of 13 columns on the 12-column grid,
  added without a position and not colliding, collide after compaction.
\<close>

theorem collision_free_counterexample:
  "\<not> collisionFree (widgetsOf (layoutCalls 1
        [AddWidget widgetA (Some (0, 0)), AddWidget widgetB (Some (0, 0))] newLayoutManager)) \<and>
   collisionFree (widgetsOf (layoutCalls 1
        [AddWidget wideA None, AddWidget wideB None] newLayoutManager)) \<and>
   \<not> collisionFree (widgetsOf (layoutCalls 1
        [AddWidget wideA None, AddWidget wideB None, CompactLayout] newLayoutManager))"
  by (simp add: layout_defs widgetA_def widgetB_def wideA_def wideB_def
      findOptimalPosition_too_wide findCompactPosition_too_wide)

text \<open>
  C1, amended. Starting from a widget list without collisions whose ids are pairwise
  distinct and non-empty, the list is without collisions after every sequence of
  admissible calls: \<open>addWidget\<close> without a position argument (fresh, non-empty id), any
  \<open>updateWidgetLayout\<close> (successful or not), and \<open>compactLayout\<close> when every widget
  has a defined \<open>y\<close> and spans at least one row and between one and \<open>gridCols\<close>
  columns and the rows of all widgets sum to at most 1000; provided that at the time of each call the grid width,
  the coordinates, spans and span bounds of the stored layouts, and the numbers passed
  to the call are whole numbers of magnitude at most \<open>2^51\<close>.
\<close>

theorem layout_stays_collision_free:
  "wellPlaced s \<Longrightarrow> admissibleCalls now calls s \<Longrightarrow>
     wellPlaced (layoutCalls now calls s) \<and> collisionFree (widgetsOf (layoutCalls now calls s))"
proof (induction calls arbitrary: s)
  case Nil
  then show ?case by (simp add: wellPlaced_def)
next
  case (Cons c calls)
  from Cons.prems have "wellPlaced (layoutCall now c s)"
    by (simp add: wellPlaced_layoutCall)
  with Cons show ?case by simp
qed

theorem layout_stays_collision_free_witness:
  "wellPlaced newLayoutManager \<and>
   admissibleCalls 1 [AddWidget widgetA None, AddWidget widgetB None,
      UpdateWidgetLayout ''b'' (moveTo 0 0), CompactLayout] newLayoutManager \<and>
   collisionFree (widgetsOf (layoutCalls 1 [AddWidget widgetA None, AddWidget widgetB None,
      UpdateWidgetLayout ''b'' (moveTo 0 0), CompactLayout] newLayoutManager)) \<and>
   map (\<lambda>w. (widget_id w, xOf (widget_layout w), yOf (widget_layout w)))
     (widgetsOf (layoutCalls 1 [AddWidget widgetA None, AddWidget widgetB None,
        UpdateWidgetLayout ''b'' (moveTo 0 0), CompactLayout] newLayoutManager))
    = [(''a'', 0, 0), (''b'', 0, 2)]"
proof -
  let ?calls = "[AddWidget widgetA None, AddWidget widgetB None,
      UpdateWidgetLayout ''b'' (moveTo 0 0), CompactLayout]"
  have a: "wellPlaced newLayoutManager"
    by (simp add: layout_defs)
  have b: "admissibleCalls 1 ?calls newLayoutManager"
    by (simp add: layout_defs scan_defs range_defs isDefined_def widgetA_def widgetB_def)
  have c: "map (\<lambda>w. (widget_id w, xOf (widget_layout w), yOf (widget_layout w)))
      (widgetsOf (layoutCalls 1 ?calls newLayoutManager)) = [(''a'', 0, 0), (''b'', 0, 2)]"
    by (simp add: layout_defs scan_defs isDefined_def widgetA_def widgetB_def xOf_def yOf_def)
  from layout_stays_collision_free [OF a b] a b c show ?thesis by simp
qed


section \<open>Layout: updateWidgetLayout is all or nothing\<close>

text \<open>
  The checks as the specification words them. A layout is within bounds when its
  position is not negative, it ends within the grid width, and its span respects its
  span bounds; \<open>withinDeclaredBounds\<close> reads ``declared'' as present, \<open>withinBounds\<close>
  as present and not 0. Two layouts collide when their rectangles overlap on both axes,
  touching edges not counting. The other widgets of the list are all but the widget
  being updated.
\<close>

definition positionInGrid :: "WidgetLayout \<Rightarrow> int \<Rightarrow> bool" where
  "positionInGrid l gridCols = (0 \<le> xOf l \<and> 0 \<le> yOf l \<and> xOf l + cols l \<le> gridCols)"

definition withinDeclaredBounds :: "WidgetLayout \<Rightarrow> int \<Rightarrow> bool" where
  "withinDeclaredBounds l gridCols =
     (positionInGrid l gridCols \<and>
      (case minCols l of None \<Rightarrow> True | Some m \<Rightarrow> m \<le> cols l) \<and>
      (case maxCols l of None \<Rightarrow> True | Some m \<Rightarrow> cols l \<le> m) \<and>
      (case minRows l of None \<Rightarrow> True | Some m \<Rightarrow> m \<le> rows l) \<and>
      (case maxRows l of None \<Rightarrow> True | Some m \<Rightarrow> rows l \<le> m))"

definition withinBounds :: "WidgetLayout \<Rightarrow> int \<Rightarrow> bool" where
  "withinBounds l gridCols =
     (positionInGrid l gridCols \<and>
      (case minCols l of None \<Rightarrow> True | Some m \<Rightarrow> m = 0 \<or> m \<le> cols l) \<and>
      (case maxCols l of None \<Rightarrow> True | Some m \<Rightarrow> m = 0 \<or> cols l \<le> m) \<and>
      (case minRows l of None \<Rightarrow> True | Some m \<Rightarrow> m = 0 \<or> m \<le> rows l) \<and>
      (case maxRows l of None \<Rightarrow> True | Some m \<Rightarrow> m = 0 \<or> rows l \<le> m))"

definition rectanglesOverlap :: "WidgetLayout \<Rightarrow> WidgetLayout \<Rightarrow> bool" where
  "rectanglesOverlap a b =
     (xOf a < xOf b + cols b \<and> xOf b < xOf a + cols a \<and>
      yOf a < yOf b + rows b \<and> yOf b < yOf a + rows a)"

definition collidesWithOther :: "DashboardWidget \<Rightarrow> WidgetLayout \<Rightarrow> DashboardWidget list \<Rightarrow> bool" where
  "collidesWithOther w l ws = list_ex (\<lambda>v. rectanglesOverlap l (widget_layout v)) (remove1 w ws)"

text \<open>
  The candidates of the expanding-ring search as the specification lists them, in the
  order of the search: radius 1 to 10 around the target position, the cells on the
  perimeter of each ring, each clamped to non-negative coordinates. A candidate is
  acceptable when it is within bounds and collides with no other widget.
\<close>

definition ringCandidates :: "WidgetLayout \<Rightarrow> WidgetLayout list" where
  "ringCandidates l =
     [at l (max 0 (orZero (pos_x l) + dx)) (max 0 (orZero (pos_y l) + dy)).
        radius \<leftarrow> [1..10], dx \<leftarrow> [- radius..radius], dy \<leftarrow> [- radius..radius],
        \<bar>dx\<bar> = radius \<or> \<bar>dy\<bar> = radius]"

definition acceptable :: "DashboardWidget \<Rightarrow> DashboardWidget list \<Rightarrow> int \<Rightarrow> WidgetLayout \<Rightarrow> bool" where
  "acceptable w ws gridCols candidate =
     (withinBounds candidate gridCols \<and> \<not> collidesWithOther w candidate ws)"

text \<open>
  The layout the call settles on, if any: the merged layout when it is acceptable, the
  first acceptable ring candidate when the merged layout is within bounds but collides,
  none otherwise. \<open>withLayout\<close> is the widget list with the layout of the widget
  \<open>instanceId\<close> replaced.
\<close>

definition chosenLayout ::
  "DashboardWidget \<Rightarrow> DashboardWidget list \<Rightarrow> int \<Rightarrow> WidgetLayout \<Rightarrow> WidgetLayout option" where
  "chosenLayout w ws gridCols merged =
     (if \<not> withinBounds merged gridCols then None
      else if \<not> collidesWithOther w merged ws then Some merged
      else find (acceptable w ws gridCols) (ringCandidates merged))"

definition withLayout :: "string \<Rightarrow> WidgetLayout \<Rightarrow> DashboardWidget list \<Rightarrow> DashboardWidget list" where
  "withLayout instanceId l ws =
     map (\<lambda>v. if widget_id v = instanceId then v\<lparr>widget_layout := l\<rparr> else v) ws"

text \<open>The two checks of the service on a candidate, for the loops of \<open>resolveOverlaps\<close>.\<close>

definition passesChecks :: "string \<Rightarrow> DashboardConfig \<Rightarrow> WidgetLayout \<Rightarrow> bool" where
  "passesChecks instanceId config candidate =
     (validateLayout candidate config \<and> \<not> hasOverlap instanceId candidate config)"

fun firstSome :: "('a \<Rightarrow> 'b option) \<Rightarrow> 'a list \<Rightarrow> 'b option" where
  "firstSome f [] = None"
| "firstSome f (a # as) = (case f a of Some r \<Rightarrow> Some r | None \<Rightarrow> firstSome f as)"

text \<open>Example dashboards and partial layouts.\<close>

definition tallA :: DashboardWidget where
  "tallA = \<lparr>widget_id = ''a'', widget_layout = plainLayout 12 11\<rparr>"

definition fullB :: DashboardWidget where
  "fullB = \<lparr>widget_id = ''b'', widget_layout = plainLayout 12 1\<rparr>"

definition crowded :: LayoutManager where
  "crowded = layoutCalls 1 [AddWidget tallA None, AddWidget fullB None] newLayoutManager"

definition roomy :: LayoutManager where
  "roomy = layoutCalls 1 [AddWidget widgetA None, AddWidget widgetB None] newLayoutManager"

definition twinA :: DashboardWidget where
  "twinA = \<lparr>widget_id = ''a'', widget_layout = plainLayout 3 1\<rparr>"

definition twins :: LayoutManager where
  "twins = layoutCalls 1 [AddWidget widgetA None, AddWidget twinA None] newLayoutManager"

definition capColumns :: "int \<Rightarrow> PartialLayout" where
  "capColumns m = noChange\<lparr>p_maxCols := Present (Some m)\<rparr>"

definition widen :: "int \<Rightarrow> int \<Rightarrow> PartialLayout" where
  "widen c m = noChange\<lparr>p_cols := Present c, p_maxCols := Present (Some m)\<rparr>"

definition unsetX :: PartialLayout where
  "unsetX = noChange\<lparr>p_x := Present None\<rparr>"

definition reshape :: PartialLayout where
  "reshape =
     \<lparr>p_cols = Present 3, p_rows = Present 4, p_x = Present (Some 5), p_y = Present (Some 6),
      p_minCols = Present (Some 1), p_minRows = Present (Some 2),
      p_maxCols = Present (Some 6), p_maxRows = Present (Some 7)\<rparr>"

definition reshaped :: LayoutManager where
  "reshaped = snd (updateWidgetLayout 2 ''a'' reshape roomy)"


text \<open>The nested loops of \<open>resolveOverlaps\<close> return the first candidate that passes.\<close>

lemma firstInRange_upto: "firstInRange body lo hi = firstSome body [lo..hi]"
proof (induction body lo hi rule: firstInRange.induct)
  case (1 body v upper)
  show ?case
  proof (cases "v \<le> upper")
    case True
    then have "[v..upper] = v # [v + 1..upper]" by (rule upto_rec1)
    with True 1 show ?thesis
      by (simp add: firstInRange.simps [of body v upper] split: option.splits)
  next
    case False
    then show ?thesis by (simp add: firstInRange.simps [of body v upper])
  qed
qed

lemma find_append_firstSome:
  "find P (as @ bs) = (case find P as of Some r \<Rightarrow> Some r | None \<Rightarrow> find P bs)"
  by (induction as) auto

lemma find_concat_map: "find P (concat (map F as)) = firstSome (\<lambda>a. find P (F a)) as"
  by (induction as) (auto simp: find_append_firstSome split: option.splits)

lemma resolveOverlaps_find:
  "resolveOverlaps i l config = find (passesChecks i config) (ringCandidates l)"
proof -
  have cell: "find (passesChecks i config) (if c then [t] else []) =
      (if c then (let testLayout = t
                  in if validateLayout testLayout config \<and> \<not> hasOverlap i testLayout config
                     then Some testLayout else None)
       else None)" for c t
    by (simp add: passesChecks_def)
  show ?thesis
    by (simp only: resolveOverlaps_def ringCandidates_def Let_def firstInRange_upto
        find_concat_map cell)
qed

text \<open>The checks of the service are the checks of the specification.\<close>

lemma validateLayout_withinBounds:
  "validateLayout l config \<longleftrightarrow> withinBounds l (grid_cols (grid config))"
  by (auto simp: validateLayout_def withinBounds_def positionInGrid_def declared_def orZero_def
      xOf_def yOf_def Let_def split: option.splits)

lemma overlaps_rectangles: "overlaps l w \<longleftrightarrow> rectanglesOverlap l w"
  by (simp add: overlaps_iff rectanglesOverlap_def)

lemma other_widgets:
  assumes "distinct (map widget_id ws)" "find (\<lambda>w. widget_id w = i) ws = Some w"
  shows "set (remove1 w ws) = {v \<in> set ws. widget_id v \<noteq> i}"
proof -
  from find_id [OF assms(2)] have w: "widget_id w = i" "w \<in> set ws" by simp_all
  from assms(1) have d: "distinct ws" and inj: "inj_on widget_id (set ws)"
    by (simp_all add: distinct_map)
  have "v \<noteq> w \<longleftrightarrow> widget_id v \<noteq> i" if "v \<in> set ws" for v
    using that w inj by (auto dest: inj_onD)
  with d show ?thesis by auto
qed

lemma hasOverlap_collides:
  assumes "distinct (map widget_id (dash_widgets config))"
    "find (\<lambda>w. widget_id w = i) (dash_widgets config) = Some w"
  shows "hasOverlap i l config \<longleftrightarrow> collidesWithOther w l (dash_widgets config)"
  using other_widgets [OF assms]
  by (auto simp: hasOverlap_iff collidesWithOther_def list_ex_iff overlaps_rectangles)

lemma passesChecks_acceptable:
  assumes "distinct (map widget_id (dash_widgets config))"
    "find (\<lambda>w. widget_id w = i) (dash_widgets config) = Some w"
  shows "passesChecks i config l \<longleftrightarrow> acceptable w (dash_widgets config) (grid_cols (grid config)) l"
  by (simp add: passesChecks_def acceptable_def validateLayout_withinBounds
      hasOverlap_collides [OF assms])

lemma ringSearch:
  assumes "distinct (map widget_id (dash_widgets config))"
    "find (\<lambda>w. widget_id w = i) (dash_widgets config) = Some w"
  shows "find (acceptable w (dash_widgets config) (grid_cols (grid config))) (ringCandidates l)
           = resolveOverlaps i l config"
  unfolding resolveOverlaps_find
  by (rule find_cong) (simp_all add: passesChecks_acceptable [OF assms])

lemma withLayout_others:
  "\<forall>v \<in> set ws. widget_id v \<noteq> i \<Longrightarrow> withLayout i t ws = ws"
  by (induction ws) (simp_all add: withLayout_def)

lemma replaceFirst_withLayout:
  assumes "distinct (map widget_id ws)" "find (\<lambda>w. widget_id w = i) ws = Some w"
  shows "replaceFirst (\<lambda>w. widget_id w = i) (w\<lparr>widget_layout := t\<rparr>) ws = withLayout i t ws"
  using assms
proof (induction ws)
  case Nil
  then show ?case by simp
next
  case (Cons a ws)
  show ?case
  proof (cases "widget_id a = i")
    case True
    with Cons.prems(1) have "\<forall>v \<in> set ws. widget_id v \<noteq> i" by (auto simp: image_iff)
    then have "withLayout i t ws = ws" by (rule withLayout_others)
    moreover from True Cons.prems(2) have "w = a" by simp
    ultimately show ?thesis using True by (simp add: withLayout_def)
  next
    case False
    with Cons have "replaceFirst (\<lambda>w. widget_id w = i) (w\<lparr>widget_layout := t\<rparr>) ws
        = withLayout i t ws" by simp
    with False show ?thesis by (simp add: withLayout_def)
  qed
qed

lemma getWidgetLayout_replaceFirst:
  assumes "find (\<lambda>w. widget_id w = i) ws = Some w"
  shows "map_option widget_layout
           (find (\<lambda>w. widget_id w = i) (replaceFirst (\<lambda>w. widget_id w = i) (w\<lparr>widget_layout := t\<rparr>) ws))
         = Some t"
  using assms find_id [OF assms]
  by (induction ws) (auto split: if_splits)

lemmas check_defs =
  validateLayout_def hasOverlap_def overlaps_def widgetsOf_def mergeLayout_def moveTo_def
  noChange_def capColumns_def widen_def unsetX_def isDefined_def
  at_def plainLayout_def spread_def orZero_def declared_def Let_def

lemmas spec_defs =
  chosenLayout_def withinBounds_def positionInGrid_def collidesWithOther_def
  rectanglesOverlap_def xOf_def yOf_def withLayout_def getWidgetLayout_def

lemma crowded_widgets:
  "widgetsOf crowded =
     [\<lparr>widget_id = ''a'', widget_layout = at (plainLayout 12 11) 0 0\<rparr>,
      \<lparr>widget_id = ''b'', widget_layout = at (plainLayout 12 1) 0 11\<rparr>]"
  "grid_cols (grid (dashboardConfig crowded)) = 12"
  by (simp_all add: crowded_def layout_defs scan_defs tallA_def fullB_def)

lemma roomy_widgets:
  "widgetsOf roomy =
     [\<lparr>widget_id = ''a'', widget_layout = at (plainLayout 2 2) 0 0\<rparr>,
      \<lparr>widget_id = ''b'', widget_layout = at (plainLayout 11 1) 0 2\<rparr>]"
  "grid_cols (grid (dashboardConfig roomy)) = 12"
  by (simp_all add: roomy_def layout_defs scan_defs widgetA_def widgetB_def)

lemma twins_widgets:
  "widgetsOf twins =
     [\<lparr>widget_id = ''a'', widget_layout = at (plainLayout 2 2) 0 0\<rparr>,
      \<lparr>widget_id = ''a'', widget_layout = at (plainLayout 3 1) 2 0\<rparr>]"
  "grid_cols (grid (dashboardConfig twins)) = 12"
  by (simp_all add: twins_def layout_defs scan_defs widgetA_def twinA_def)

lemma example_widgets:
  "dash_widgets (dashboardConfig crowded) =
     [\<lparr>widget_id = ''a'', widget_layout = at (plainLayout 12 11) 0 0\<rparr>,
      \<lparr>widget_id = ''b'', widget_layout = at (plainLayout 12 1) 0 11\<rparr>]"
  "dash_widgets (dashboardConfig roomy) =
     [\<lparr>widget_id = ''a'', widget_layout = at (plainLayout 2 2) 0 0\<rparr>,
      \<lparr>widget_id = ''b'', widget_layout = at (plainLayout 11 1) 0 2\<rparr>]"
  "dash_widgets (dashboardConfig twins) =
     [\<lparr>widget_id = ''a'', widget_layout = at (plainLayout 2 2) 0 0\<rparr>,
      \<lparr>widget_id = ''a'', widget_layout = at (plainLayout 3 1) 2 0\<rparr>]"
  using crowded_widgets roomy_widgets twins_widgets by (simp_all add: widgetsOf_def)

lemma crowded_ring:
  "find (acceptable \<lparr>widget_id = ''b'', widget_layout = at (plainLayout 12 1) 0 11\<rparr>
           (widgetsOf crowded) 12)
     (ringCandidates (mergeLayout (at (plainLayout 12 1) 0 11) (moveTo 0 0))) = None"
proof -
  have "resolveOverlaps ''b'' (mergeLayout (at (plainLayout 12 1) 0 11) (moveTo 0 0))
      (dashboardConfig crowded) = None"
    using crowded_widgets(2)
    by (simp add: resolveOverlaps_def firstInRange.simps example_widgets check_defs)
  with ringSearch [of "dashboardConfig crowded" "''b''"
      "\<lparr>widget_id = ''b'', widget_layout = at (plainLayout 12 1) 0 11\<rparr>"
      "mergeLayout (at (plainLayout 12 1) 0 11) (moveTo 0 0)"] crowded_widgets(2)
  show ?thesis by (simp add: example_widgets widgetsOf_def)
qed

lemma roomy_ring:
  "find (acceptable \<lparr>widget_id = ''b'', widget_layout = at (plainLayout 11 1) 0 2\<rparr>
           (widgetsOf roomy) 12)
     (ringCandidates (mergeLayout (at (plainLayout 11 1) 0 2) (moveTo 0 0)))
   = Some (at (plainLayout 11 1) 0 2)"
proof -
  have "resolveOverlaps ''b'' (mergeLayout (at (plainLayout 11 1) 0 2) (moveTo 0 0))
      (dashboardConfig roomy) = Some (at (plainLayout 11 1) 0 2)"
    using roomy_widgets(2)
    by (simp add: resolveOverlaps_def firstInRange.simps example_widgets check_defs)
  with ringSearch [of "dashboardConfig roomy" "''b''"
      "\<lparr>widget_id = ''b'', widget_layout = at (plainLayout 11 1) 0 2\<rparr>"
      "mergeLayout (at (plainLayout 11 1) 0 2) (moveTo 0 0)"] roomy_widgets(2)
  show ?thesis by (simp add: example_widgets widgetsOf_def)
qed


text \<open>
  C2, as stated, fails. A span bound of 0 is not enforced: on a widget of 2 columns,
  \<open>updateWidgetLayout(''a'', {maxCols: 0})\<close> returns true and stores a layout of 2
  columns with \<open>maxCols\<close> 0, a merged layout that is not within its declared bounds.
  And a collision with a widget of the same id is not seen: with two widgets of id
  \<open>a\<close>, of 2 by 2 cells at \<open>(0, 0)\<close> and of 3 by 1 cells at \<open>(2, 0)\<close>,
  \<open>updateWidgetLayout(''a'', {x: 2, y: 0})\<close> returns true and puts the first on top of
  the second.
\<close>

theorem updateWidgetLayout_all_or_nothing_counterexample:
  "fst (updateWidgetLayout 2 ''a'' (capColumns 0) roomy) \<and>
   map_option (\<lambda>l. (cols l, maxCols l, withinDeclaredBounds l 12))
       (getWidgetLayout (snd (updateWidgetLayout 2 ''a'' (capColumns 0) roomy)) ''a'')
     = Some (2, Some 0, False) \<and>
   fst (updateWidgetLayout 2 ''a'' (moveTo 2 0) twins) \<and>
   map (\<lambda>w. (widget_id w, xOf (widget_layout w), yOf (widget_layout w),
             cols (widget_layout w), rows (widget_layout w)))
       (widgetsOf (snd (updateWidgetLayout 2 ''a'' (moveTo 2 0) twins)))
     = [(''a'', 2, 0, 2, 2), (''a'', 2, 0, 3, 1)]"
  using roomy_widgets(2) twins_widgets(2)
  by (simp add: updateWidgetLayout_def example_widgets check_defs recordLayoutChange_def
      getWidgetLayout_def withinDeclaredBounds_def positionInGrid_def xOf_def yOf_def)

text \<open>
  C2, amended. On a dashboard whose widget ids are pairwise distinct, with the grid
  width, the stored layouts and the partial layout holding whole numbers of magnitude
  at most \<open>2^51\<close> (\<open>cols\<close> and \<open>rows\<close> of the partial layout being numbers when
  present), \<open>updateWidgetLayout(id, partialLayout)\<close> is all or nothing. For an id that
  is not in the widget list it returns false and changes nothing. Otherwise, with the
  partial layout merged into the stored one: if the merged layout is not within bounds
  (\<open>x \<ge> 0\<close>, \<open>y \<ge> 0\<close>, \<open>x + cols \<le> gridCols\<close>, an undefined coordinate reading
  as 0, and the span within every span bound that is present and not 0), or if it
  collides with another widget and no ring candidate is acceptable, the call returns
  false and the whole state (widget layouts, dashboard config, change history) is
  unchanged; otherwise it returns true, and the
  widget has the merged layout if that collides with no other widget and the first
  acceptable ring candidate if it does, with every other widget and the rest of the
  dashboard config as before, and the change (a move when the partial layout defines
  \<open>x\<close> or \<open>y\<close>, a resize otherwise) is added to the change history.
\<close>

theorem updateWidgetLayout_all_or_nothing:
  assumes "distinct (map widget_id (widgetsOf s))"
    and "managerInRange s" and "partialInRange partial"
  shows "case find (\<lambda>w. widget_id w = i) (widgetsOf s) of
           None \<Rightarrow> updateWidgetLayout now i partial s = (False, s)
         | Some w \<Rightarrow>
             (case chosenLayout w (widgetsOf s) (grid_cols (grid (dashboardConfig s)))
                     (mergeLayout (widget_layout w) partial) of
                None \<Rightarrow> updateWidgetLayout now i partial s = (False, s)
              | Some t \<Rightarrow>
                  updateWidgetLayout now i partial s =
                    (True,
                     recordLayoutChange
                       \<lparr>change_type =
                          (if isDefined (p_x partial) \<or> isDefined (p_y partial) then Move else Resize),
                        change_instanceId = i, change_layout = t,
                        change_previousLayout = Some (widget_layout w), change_timestamp = now\<rparr>
                       (s\<lparr>dashboardConfig :=
                            (dashboardConfig s)\<lparr>dash_widgets := withLayout i t (widgetsOf s)\<rparr>\<rparr>)) \<and>
                  getWidgetLayout (snd (updateWidgetLayout now i partial s)) i = Some t)"
proof (cases "find (\<lambda>w. widget_id w = i) (widgetsOf s)")
  case None
  then show ?thesis
    by (simp add: updateWidgetLayout_def widgetsOf_def)
next
  case (Some w)
  let ?config = "dashboardConfig s"
  let ?merged = "mergeLayout (widget_layout w) partial"
  let ?result = "updateWidgetLayout now i partial s"
  from Some have w: "find (\<lambda>w. widget_id w = i) (dash_widgets ?config) = Some w"
    by (simp add: widgetsOf_def)
  from assms(1) have d: "distinct (map widget_id (dash_widgets ?config))"
    by (simp add: widgetsOf_def)
  have choice: "chosenLayout w (widgetsOf s) (grid_cols (grid ?config)) ?merged =
      (if \<not> validateLayout ?merged ?config then None
       else if hasOverlap i ?merged ?config then resolveOverlaps i ?merged ?config
       else Some ?merged)"
    by (simp add: chosenLayout_def widgetsOf_def validateLayout_withinBounds
        hasOverlap_collides [OF d w] ringSearch [OF d w])
  show ?thesis
  proof (cases "chosenLayout w (widgetsOf s) (grid_cols (grid ?config)) ?merged")
    case None
    with choice w have "?result = (False, s)"
      by (auto simp: updateWidgetLayout_def Let_def split: if_splits)
    with Some None show ?thesis by simp
  next
    case chosen: (Some t)
    with choice have valid: "validateLayout ?merged ?config"
      and t: "(if hasOverlap i ?merged ?config then resolveOverlaps i ?merged ?config
               else Some ?merged) = Some t"
      by (auto split: if_splits)
    from w valid t have "?result =
        (True, recordLayoutChange
           \<lparr>change_type = (if isDefined (p_x partial) \<or> isDefined (p_y partial) then Move else Resize),
            change_instanceId = i, change_layout = t,
            change_previousLayout = Some (widget_layout w), change_timestamp = now\<rparr>
           (s\<lparr>dashboardConfig :=
                ?config\<lparr>dash_widgets :=
                           replaceFirst (\<lambda>w. widget_id w = i) (w\<lparr>widget_layout := t\<rparr>)
                             (dash_widgets ?config)\<rparr>\<rparr>))"
      by (simp add: updateWidgetLayout_def Let_def)
    then have applied: "?result =
        (True, recordLayoutChange
           \<lparr>change_type = (if isDefined (p_x partial) \<or> isDefined (p_y partial) then Move else Resize),
            change_instanceId = i, change_layout = t,
            change_previousLayout = Some (widget_layout w), change_timestamp = now\<rparr>
           (s\<lparr>dashboardConfig := ?config\<lparr>dash_widgets := withLayout i t (widgetsOf s)\<rparr>\<rparr>)) \<and>
        getWidgetLayout (snd ?result) i = Some t"
      using getWidgetLayout_replaceFirst [OF w, of t] replaceFirst_withLayout [OF d w, of t]
      by (simp add: getWidgetLayout_def widgetsOf_def)
    show ?thesis
      unfolding Some chosen option.case by (rule applied)
  qed
qed

text \<open>
  A full-width widget below a full-width widget that is 11 rows high cannot be moved to
  the top: every ring candidate collides or leaves the grid. On a roomier dashboard the
  move is resolved to the first free ring candidate; a move that leaves the grid, a
  move to a negative column and a span beyond its bound are refused; a move to a free
  place is applied as requested; a present \<open>x\<close> that is \<open>undefined\<close> replaces the
  stored \<open>x\<close>; every property of a partial layout replaces the stored one, and every
  property it leaves out is kept.
\<close>

theorem updateWidgetLayout_all_or_nothing_witness:
  "updateWidgetLayout 2 ''b'' (moveTo 0 0) crowded = (False, crowded) \<and>
   fst (updateWidgetLayout 2 ''b'' (moveTo 0 0) roomy) \<and>
   getWidgetLayout (snd (updateWidgetLayout 2 ''b'' (moveTo 0 0) roomy)) ''b''
     = Some (at (plainLayout 11 1) 0 2) \<and>
   updateWidgetLayout 2 ''b'' (moveTo 5 2) roomy = (False, roomy) \<and>
   updateWidgetLayout 2 ''b'' (moveTo (- 1) 2) roomy = (False, roomy) \<and>
   updateWidgetLayout 2 ''a'' (widen 3 2) roomy = (False, roomy) \<and>
   updateWidgetLayout 2 ''z'' (moveTo 4 5) roomy = (False, roomy) \<and>
   fst (updateWidgetLayout 2 ''a'' (moveTo 4 5) roomy) \<and>
   widgetsOf (snd (updateWidgetLayout 2 ''a'' (moveTo 4 5) roomy))
     = [\<lparr>widget_id = ''a'', widget_layout = at (plainLayout 2 2) 4 5\<rparr>,
        \<lparr>widget_id = ''b'', widget_layout = at (plainLayout 11 1) 0 2\<rparr>] \<and>
   map change_type (layoutChanges (snd (updateWidgetLayout 2 ''a'' (moveTo 4 5) roomy)))
     = [Add, Add, Move] \<and>
   fst (updateWidgetLayout 2 ''b'' unsetX roomy) \<and>
   getWidgetLayout (snd (updateWidgetLayout 2 ''b'' unsetX roomy)) ''b''
     = Some ((plainLayout 11 1)\<lparr>pos_y := Some 2\<rparr>) \<and>
   map change_type (layoutChanges (snd (updateWidgetLayout 2 ''b'' unsetX roomy)))
     = [Add, Add, Resize] \<and>
   widgetsOf reshaped
     = [\<lparr>widget_id = ''a'',
          widget_layout = \<lparr>cols = 3, rows = 4, pos_x = Some 5, pos_y = Some 6, minCols = Some 1,
                            minRows = Some 2, maxCols = Some 6, maxRows = Some 7\<rparr>\<rparr>,
        \<lparr>widget_id = ''b'', widget_layout = at (plainLayout 11 1) 0 2\<rparr>] \<and>
   getWidgetLayout (snd (updateWidgetLayout 3 ''a'' (moveTo 0 6) reshaped)) ''a''
     = Some \<lparr>cols = 3, rows = 4, pos_x = Some 0, pos_y = Some 6, minCols = Some 1,
             minRows = Some 2, maxCols = Some 6, maxRows = Some 7\<rparr>"
proof -
  have dc: "distinct (map widget_id (widgetsOf crowded))" by (simp add: crowded_widgets)
  have rc: "managerInRange crowded"
    using crowded_widgets(2) by (simp add: range_defs example_widgets at_def plainLayout_def)
  have dr: "distinct (map widget_id (widgetsOf roomy))" by (simp add: roomy_widgets)
  have rr: "managerInRange roomy"
    using roomy_widgets(2) by (simp add: range_defs example_widgets at_def plainLayout_def)
  have p: "partialInRange (moveTo 0 0)" "partialInRange (moveTo 5 2)" "partialInRange (widen 3 2)"
    "partialInRange (moveTo 4 5)" "partialInRange unsetX" "partialInRange (moveTo (- 1) 2)"
    "partialInRange reshape" "partialInRange (moveTo 0 6)"
    by (simp_all add: range_defs moveTo_def widen_def unsetX_def reshape_def noChange_def)
  have roomy_history: "map change_type (layoutChanges roomy) = [Add, Add]"
    "length (layoutChanges roomy) = 2"
    by (simp_all add: roomy_def layout_defs scan_defs widgetA_def widgetB_def)
  from updateWidgetLayout_all_or_nothing [OF dc rc p(1), where i = "''b''" and now = 2] crowded_ring
  have 1: "updateWidgetLayout 2 ''b'' (moveTo 0 0) crowded = (False, crowded)"
    by (simp add: crowded_widgets example_widgets spec_defs check_defs)
  from updateWidgetLayout_all_or_nothing [OF dr rr p(1), where i = "''b''" and now = 2] roomy_ring
  have 2: "fst (updateWidgetLayout 2 ''b'' (moveTo 0 0) roomy) \<and>
      getWidgetLayout (snd (updateWidgetLayout 2 ''b'' (moveTo 0 0) roomy)) ''b''
        = Some (at (plainLayout 11 1) 0 2)"
    by (simp add: roomy_widgets example_widgets spec_defs check_defs)
  from updateWidgetLayout_all_or_nothing [OF dr rr p(2), where i = "''b''" and now = 2]
  have 3: "updateWidgetLayout 2 ''b'' (moveTo 5 2) roomy = (False, roomy)"
    by (simp add: roomy_widgets example_widgets spec_defs check_defs)
  from updateWidgetLayout_all_or_nothing [OF dr rr p(6), where i = "''b''" and now = 2]
  have 10: "updateWidgetLayout 2 ''b'' (moveTo (- 1) 2) roomy = (False, roomy)"
    by (simp add: roomy_widgets example_widgets spec_defs check_defs)
  from updateWidgetLayout_all_or_nothing [OF dr rr p(3), where i = "''a''" and now = 2]
  have 4: "updateWidgetLayout 2 ''a'' (widen 3 2) roomy = (False, roomy)"
    by (simp add: roomy_widgets example_widgets spec_defs check_defs)
  from updateWidgetLayout_all_or_nothing [OF dr rr p(4), where i = "''z''" and now = 2]
  have 5: "updateWidgetLayout 2 ''z'' (moveTo 4 5) roomy = (False, roomy)"
    by (simp add: roomy_widgets)
  from updateWidgetLayout_all_or_nothing [OF dr rr p(4), where i = "''a''" and now = 2]
  have 6: "fst (updateWidgetLayout 2 ''a'' (moveTo 4 5) roomy) \<and>
      widgetsOf (snd (updateWidgetLayout 2 ''a'' (moveTo 4 5) roomy))
        = [\<lparr>widget_id = ''a'', widget_layout = at (plainLayout 2 2) 4 5\<rparr>,
           \<lparr>widget_id = ''b'', widget_layout = at (plainLayout 11 1) 0 2\<rparr>] \<and>
      map change_type (layoutChanges (snd (updateWidgetLayout 2 ''a'' (moveTo 4 5) roomy)))
        = [Add, Add, Move]"
    using roomy_history
    by (simp add: roomy_widgets example_widgets spec_defs check_defs recordLayoutChange_def)
  from updateWidgetLayout_all_or_nothing [OF dr rr p(5), where i = "''b''" and now = 2]
  have 7: "fst (updateWidgetLayout 2 ''b'' unsetX roomy) \<and>
      getWidgetLayout (snd (updateWidgetLayout 2 ''b'' unsetX roomy)) ''b''
        = Some ((plainLayout 11 1)\<lparr>pos_y := Some 2\<rparr>) \<and>
      map change_type (layoutChanges (snd (updateWidgetLayout 2 ''b'' unsetX roomy)))
        = [Add, Add, Resize]"
    using roomy_history
    by (simp add: roomy_widgets example_widgets spec_defs check_defs recordLayoutChange_def)
  from updateWidgetLayout_all_or_nothing [OF dr rr p(7), where i = "''a''" and now = 2]
  have 8: "widgetsOf reshaped
     = [\<lparr>widget_id = ''a'',
          widget_layout = \<lparr>cols = 3, rows = 4, pos_x = Some 5, pos_y = Some 6, minCols = Some 1,
                            minRows = Some 2, maxCols = Some 6, maxRows = Some 7\<rparr>\<rparr>,
        \<lparr>widget_id = ''b'', widget_layout = at (plainLayout 11 1) 0 2\<rparr>]"
    and g: "grid_cols (grid (dashboardConfig reshaped)) = 12"
    by (simp_all add: reshaped_def roomy_widgets example_widgets spec_defs check_defs reshape_def)
  from 8 have 11: "dash_widgets (dashboardConfig reshaped)
     = [\<lparr>widget_id = ''a'',
          widget_layout = \<lparr>cols = 3, rows = 4, pos_x = Some 5, pos_y = Some 6, minCols = Some 1,
                            minRows = Some 2, maxCols = Some 6, maxRows = Some 7\<rparr>\<rparr>,
        \<lparr>widget_id = ''b'', widget_layout = at (plainLayout 11 1) 0 2\<rparr>]"
    by (simp add: widgetsOf_def)
  have ds: "distinct (map widget_id (widgetsOf reshaped))" by (simp add: 8)
  have rs: "managerInRange reshaped"
    using g by (simp add: range_defs 11 at_def plainLayout_def)
  from updateWidgetLayout_all_or_nothing [OF ds rs p(8), where i = "''a''" and now = 3]
  have 9: "getWidgetLayout (snd (updateWidgetLayout 3 ''a'' (moveTo 0 6) reshaped)) ''a''
     = Some \<lparr>cols = 3, rows = 4, pos_x = Some 0, pos_y = Some 6, minCols = Some 1,
             minRows = Some 2, maxCols = Some 6, maxRows = Some 7\<rparr>"
    using g by (simp add: 8 11 spec_defs check_defs)
  from 1 2 3 10 4 5 6 7 8 9 show ?thesis by simp
qed



section \<open>Layout: compaction of a compact layout\<close>

text \<open>
  A compact layout as the specification describes it: with the widgets sorted by
  \<open>(y, x)\<close> ascending, each widget sits at the first position, in row-major order,
  at which it fits the grid and overlaps none of the widgets before it.
  \<open>earlierPositions\<close> lists the positions that come before \<open>(x, y)\<close> in that order.
\<close>

definition freeAt :: "WidgetLayout list \<Rightarrow> WidgetLayout \<Rightarrow> int \<Rightarrow> int \<Rightarrow> bool" where
  "freeAt placed l x y = list_all (\<lambda>p. \<not> overlaps (at l x y) p) placed"

definition earlierPositions :: "int \<Rightarrow> WidgetLayout \<Rightarrow> int \<Rightarrow> int \<Rightarrow> (int \<times> int) list" where
  "earlierPositions g l x y =
     [(u, v). v \<leftarrow> [0..y - 1], u \<leftarrow> [0..g - cols l]] @ [(u, y). u \<leftarrow> [0..x - 1]]"

definition firstFree :: "int \<Rightarrow> WidgetLayout list \<Rightarrow> WidgetLayout \<Rightarrow> bool" where
  "firstFree g placed l =
     (0 \<le> xOf l \<and> xOf l \<le> g - cols l \<and> 0 \<le> yOf l \<and> freeAt placed l (xOf l) (yOf l) \<and>
      list_all (\<lambda>(u, v). \<not> freeAt placed l u v) (earlierPositions g l (xOf l) (yOf l)))"

fun packed :: "int \<Rightarrow> WidgetLayout list \<Rightarrow> WidgetLayout list \<Rightarrow> bool" where
  "packed g placed [] = True"
| "packed g placed (l # ls) = (firstFree g placed l \<and> packed g (placed @ [l]) ls)"

definition byRowThenColumn :: "DashboardWidget \<Rightarrow> DashboardWidget \<Rightarrow> int" where
  "byRowThenColumn a b =
     (if yOf (widget_layout a) \<noteq> yOf (widget_layout b)
      then yOf (widget_layout a) - yOf (widget_layout b)
      else xOf (widget_layout a) - xOf (widget_layout b))"

definition isCompact :: "int \<Rightarrow> DashboardWidget list \<Rightarrow> bool" where
  "isCompact g ws = packed g [] (map widget_layout (sortBy byRowThenColumn ws))"

text \<open>
  Where a widget is, and the widget with its coordinates written out (\<open>compactLayout\<close>
  stores explicit \<open>x\<close> and \<open>y\<close>).
\<close>

definition placement :: "DashboardWidget \<Rightarrow> string \<times> int \<times> int" where
  "placement w = (widget_id w, xOf (widget_layout w), yOf (widget_layout w))"

definition settled :: "DashboardWidget \<Rightarrow> DashboardWidget" where
  "settled w = w\<lparr>widget_layout := at (widget_layout w) (xOf (widget_layout w)) (yOf (widget_layout w))\<rparr>"

lemma placement_settled [simp]: "placement (settled w) = placement w"
  by (simp add: placement_def settled_def)

lemma in_earlierPositions:
  "(u, v) \<in> set (earlierPositions g l x y) \<longleftrightarrow>
     0 \<le> u \<and> ((0 \<le> v \<and> v < y \<and> u \<le> g - cols l) \<or> (v = y \<and> u < x))"
  by (auto simp: earlierPositions_def image_iff)

lemma firstFree_iff:
  "firstFree g placed l \<longleftrightarrow>
     0 \<le> xOf l \<and> xOf l \<le> g - cols l \<and> 0 \<le> yOf l \<and> freeAt placed l (xOf l) (yOf l) \<and>
     (\<forall>u v. 0 \<le> u \<and> ((0 \<le> v \<and> v < yOf l \<and> u \<le> g - cols l) \<or> (v = yOf l \<and> u < xOf l))
        \<longrightarrow> \<not> freeAt placed l u v)"
proof -
  have "list_all (\<lambda>(u, v). \<not> freeAt placed l u v) (earlierPositions g l (xOf l) (yOf l)) \<longleftrightarrow>
      (\<forall>u v. (u, v) \<in> set (earlierPositions g l (xOf l) (yOf l)) \<longrightarrow> \<not> freeAt placed l u v)"
    by (auto simp: list_all_iff)
  then show ?thesis
    unfolding firstFree_def by (simp only: in_earlierPositions)
qed

lemma canPlace_freeAt:
  assumes "occ = \<Union> (cells ` set placed)"
    and "\<forall>p \<in> set placed. 1 \<le> cols p \<and> 1 \<le> rows p"
    and "1 \<le> cols l" "1 \<le> rows l"
  shows "canPlace occ l u v \<longleftrightarrow> freeAt placed l u v"
proof -
  have "canPlace occ l u v \<longleftrightarrow> (\<forall>p \<in> set placed. cells (at l u v) \<inter> cells p = {})"
    using assms(1) by (auto simp: canPlace_iff)
  also have "\<dots> \<longleftrightarrow> (\<forall>p \<in> set placed. \<not> overlaps (at l u v) p)"
    using assms(2-4) overlaps_cells [of "at l u v"] by simp
  finally show ?thesis by (simp add: freeAt_def list_all_iff)
qed

lemma findCompactPosition_first:
  assumes "0 \<le> y" "y \<le> 999" "0 \<le> x" "x \<le> g - cols l" "canPlace occ l x y"
    and "\<forall>u v. 0 \<le> u \<and> 0 \<le> v \<and> ((v < y \<and> u \<le> g - cols l) \<or> (v = y \<and> u < x))
           \<longrightarrow> \<not> canPlace occ l u v"
  shows "findCompactPosition l g occ = (x, y)"
proof -
  have "gridScan (canPlace occ l) (g - cols l) = Some (x, y)"
    using assms by (simp add: gridScan_Some)
  then show ?thesis by (simp add: findCompactPosition_gridScan)
qed

lemma compactFrom_stable:
  assumes "packed g placed (map widget_layout ws)"
    and "occ = \<Union> (cells ` set placed)"
    and "\<forall>p \<in> set placed. 1 \<le> cols p \<and> 1 \<le> rows p"
    and "\<forall>w \<in> set ws. 1 \<le> cols (widget_layout w) \<and> 1 \<le> rows (widget_layout w)
           \<and> yOf (widget_layout w) \<le> 999"
  shows "compactFrom g occ ws = map settled ws"
  using assms
proof (induction ws arbitrary: placed occ)
  case Nil
  then show ?case by simp
next
  case (Cons w ws)
  let ?l = "widget_layout w"
  let ?x = "xOf ?l" and ?y = "yOf ?l"
  from Cons.prems(4) have span: "1 \<le> cols ?l" "1 \<le> rows ?l" and y999: "?y \<le> 999" by simp_all
  from Cons.prems(1) have first: "firstFree g placed ?l"
    and rest: "packed g (placed @ [?l]) (map widget_layout ws)" by simp_all
  have same: "canPlace occ ?l u v \<longleftrightarrow> freeAt placed ?l u v" for u v
    by (rule canPlace_freeAt [OF Cons.prems(2) Cons.prems(3) span])
  from first have ff: "0 \<le> ?x" "?x \<le> g - cols ?l" "0 \<le> ?y" "freeAt placed ?l ?x ?y"
    "\<forall>u v. 0 \<le> u \<and> 0 \<le> v \<and> ((v < ?y \<and> u \<le> g - cols ?l) \<or> (v = ?y \<and> u < ?x))
        \<longrightarrow> \<not> freeAt placed ?l u v"
    unfolding firstFree_iff by auto
  have pos: "findCompactPosition ?l g occ = (?x, ?y)"
    using ff y999 by (intro findCompactPosition_first) (simp_all add: same)
  have occ': "occ \<union> footprint ?x ?y ?l = \<Union> (cells ` set (placed @ [?l]))"
    using Cons.prems(2) by (auto simp: cells_def)
  have placed': "\<forall>p \<in> set (placed @ [?l]). 1 \<le> cols p \<and> 1 \<le> rows p"
    using Cons.prems(3) span by simp
  have ws': "\<forall>v \<in> set ws. 1 \<le> cols (widget_layout v) \<and> 1 \<le> rows (widget_layout v)
           \<and> yOf (widget_layout v) \<le> 999"
    using Cons.prems(4) by simp
  from Cons.IH [OF rest occ' placed' ws']
  have "compactFrom g (occ \<union> footprint ?x ?y ?l) ws = map settled ws" .
  then show ?case
    by (simp add: pos Let_def settled_def)
qed

lemma insertSorted_cong:
  "\<forall>b \<in> set bs. (cmp a b \<le> 0) = (cmp' a b \<le> 0) \<Longrightarrow>
     insertSorted cmp a bs = insertSorted cmp' a bs"
  by (induction bs) auto

lemma sortBy_cong:
  "\<forall>a \<in> set as. \<forall>b \<in> set as. (cmp a b \<le> 0) = (cmp' a b \<le> 0) \<Longrightarrow>
     sortBy cmp as = sortBy cmp' as"
proof (induction as)
  case Nil
  show ?case by (simp add: sortBy_def)
next
  case (Cons a as)
  have step: "sortBy c (a # as) = insertSorted c a (sortBy c as)" for c
    by (simp add: sortBy_def)
  from Cons have ih: "sortBy cmp as = sortBy cmp' as" by simp
  have "insertSorted cmp a (sortBy cmp' as) = insertSorted cmp' a (sortBy cmp' as)"
    using Cons.prems by (intro insertSorted_cong) simp
  with ih show ?case by (simp add: step)
qed

lemma compareByPosition_defined:
  assumes "pos_y (widget_layout a) \<noteq> None" "pos_y (widget_layout b) \<noteq> None"
  shows "compareByPosition a b = byRowThenColumn a b"
  using assms
  by (auto simp: compareByPosition_def byRowThenColumn_def xOf_def yOf_def orZero_def Let_def)


text \<open>
  A dashboard of two full-width widgets, the first 1000 rows high and the second right
  below it, in row 1000.
\<close>

definition towerA :: DashboardWidget where
  "towerA = \<lparr>widget_id = ''a'', widget_layout = plainLayout 12 1000\<rparr>"

definition towerB :: DashboardWidget where
  "towerB = \<lparr>widget_id = ''b'', widget_layout = plainLayout 12 1\<rparr>"

definition tower :: LayoutManager where
  "tower = layoutCalls 1 [AddWidget towerA (Some (0, 0)), AddWidget towerB (Some (0, 1000))]
             newLayoutManager"

lemma tower_widgets:
  "widgetsOf tower =
     [\<lparr>widget_id = ''a'', widget_layout = at (plainLayout 12 1000) 0 0\<rparr>,
      \<lparr>widget_id = ''b'', widget_layout = at (plainLayout 12 1) 0 1000\<rparr>]"
  "grid_cols (grid (dashboardConfig tower)) = 12"
  by (simp_all add: tower_def layout_defs towerA_def towerB_def)

lemma at_pos [simp]: "pos_x (at l x y) = Some x" "pos_y (at l x y) = Some y"
  by (simp_all add: at_def)

lemma plainLayout_fields [simp]:
  "cols (plainLayout c r) = c" "rows (plainLayout c r) = r"
  "xOf (plainLayout c r) = 0" "yOf (plainLayout c r) = 0"
  by (simp_all add: plainLayout_def xOf_def yOf_def orZero_def)

lemma tower_compact: "isCompact 12 (widgetsOf tower)"
proof -
  let ?a = "at (plainLayout 12 1000) 0 0" and ?b = "at (plainLayout 12 1) 0 1000"
  have sorted: "map widget_layout (sortBy byRowThenColumn (widgetsOf tower)) = [?a, ?b]"
    by (simp add: tower_widgets sortBy_def byRowThenColumn_def)
  have a: "firstFree 12 [] ?a"
    by (auto simp: firstFree_iff freeAt_def)
  have b: "firstFree 12 [?a] ?b"
    by (auto simp: firstFree_iff freeAt_def overlaps_iff)
  from a b show ?thesis
    by (simp add: isCompact_def sorted)
qed

lemma tower_compacted:
  "map placement (widgetsOf (compactLayout tower)) = [(''a'', 0, 0), (''b'', 0, 0)]"
proof -
  let ?la = "at (plainLayout 12 1000) 0 0" and ?lb = "at (plainLayout 12 1) 0 1000"
  have sorted: "sortBy compareByPosition (widgetsOf tower) =
      [\<lparr>widget_id = ''a'', widget_layout = ?la\<rparr>, \<lparr>widget_id = ''b'', widget_layout = ?lb\<rparr>]"
    by (simp add: tower_widgets sortBy_def compareByPosition_def at_def orZero_def)
  have a: "findCompactPosition ?la 12 {} = (0, 0)"
    by (rule findCompactPosition_first) (auto simp: canPlace_iff)
  have "gridScan (canPlace (footprint 0 0 ?la) ?lb) (12 - cols ?lb) = None"
  proof -
    have "\<not> canPlace (footprint 0 0 ?la) ?lb x y" if "0 \<le> y" "y \<le> 999" "0 \<le> x" "x \<le> 0" for x y
    proof -
      from that have "(0, y) \<in> footprint x y ?lb \<inter> footprint 0 0 ?la"
        by (simp add: in_footprint)
      then show ?thesis unfolding canPlace_iff by blast
    qed
    then show ?thesis by (auto simp: gridScan_None)
  qed
  then have b: "findCompactPosition ?lb 12 (footprint 0 0 ?la) = (0, 0)"
    by (simp add: findCompactPosition_gridScan)
  show ?thesis
    by (simp add: widgetsOf_compactLayout sorted tower_widgets(2) a b placement_def Let_def)
qed


text \<open>
  C8, as stated, fails. The tower is compact: each of its two widgets sits at the first
  row-major position that is free of the widgets before it. \<open>compactLayout\<close> searches
  rows 0 to 999 only, finds them taken for the second widget and falls back to
  \<open>(0, 0)\<close>: the widget moves from row 1000 to row 0.
\<close>

theorem compactLayout_stable_counterexample:
  "isCompact (grid_cols (grid (dashboardConfig tower))) (widgetsOf tower) \<and>
   map placement (widgetsOf tower) = [(''a'', 0, 0), (''b'', 0, 1000)] \<and>
   map placement (widgetsOf (compactLayout tower)) = [(''a'', 0, 0), (''b'', 0, 0)]"
  using tower_compact tower_compacted
  by (simp add: tower_widgets placement_def)


text \<open>
  A widget without a \<open>y\<close> field is another case: the comparator of \<open>compactLayout\<close>
  calls it equal to a widget with \<open>y = 0\<close> whatever their \<open>x\<close>, so the sort leaves
  the two in list order rather than in \<open>(y, x)\<close> order.
\<close>

definition loose :: LayoutManager where
  "loose =
     newLayoutManager
       \<lparr>dashboardConfig :=
          (dashboardConfig newLayoutManager)
            \<lparr>dash_widgets :=
               [\<lparr>widget_id = ''a'', widget_layout = (plainLayout 1 1)\<lparr>pos_x := Some 5\<rparr>\<rparr>,
                \<lparr>widget_id = ''b'', widget_layout = at (plainLayout 5 1) 0 0\<rparr>]\<rparr>\<rparr>"

lemmas compact_defs =
  isCompact_def firstFree_def freeAt_def earlierPositions_def byRowThenColumn_def
  placement_def xOf_def yOf_def

lemma compactLayout_undefined_y_example:
  "isCompact (grid_cols (grid (dashboardConfig loose))) (widgetsOf loose) \<and>
   map placement (widgetsOf loose) = [(''a'', 5, 0), (''b'', 0, 0)] \<and>
   map placement (widgetsOf (compactLayout loose)) = [(''a'', 0, 0), (''b'', 1, 0)]"
  by (auto simp: loose_def layout_defs scan_defs compact_defs list_all_iff)


text \<open>
  C8, amended. For every widget list that is compact, whose widgets span at least one
  column and one row, carry a \<open>y\<close> coordinate and lie in rows 0 to 999,
  \<open>compactLayout\<close> leaves every widget at its position: the list it stores is the
  list sorted by \<open>(y, x)\<close>, with the same id and the same position for each widget.
\<close>

theorem compactLayout_stable:
  assumes "isCompact (grid_cols (grid (dashboardConfig s))) (widgetsOf s)"
    and "list_all (\<lambda>w. 1 \<le> cols (widget_layout w) \<and> 1 \<le> rows (widget_layout w)
                      \<and> pos_y (widget_layout w) \<noteq> None \<and> yOf (widget_layout w) < 1000)
           (widgetsOf s)"
  shows "widgetsOf (compactLayout s) = map settled (sortBy byRowThenColumn (widgetsOf s)) \<and>
         set (map placement (widgetsOf (compactLayout s))) = set (map placement (widgetsOf s))"
proof -
  let ?g = "grid_cols (grid (dashboardConfig s))"
  let ?ws = "widgetsOf s"
  from assms(2) have each: "\<forall>w \<in> set ?ws. 1 \<le> cols (widget_layout w) \<and> 1 \<le> rows (widget_layout w)
      \<and> pos_y (widget_layout w) \<noteq> None \<and> yOf (widget_layout w) < 1000"
    by (simp add: list_all_iff)
  then have "\<forall>a \<in> set ?ws. \<forall>b \<in> set ?ws.
      (compareByPosition a b \<le> 0) = (byRowThenColumn a b \<le> 0)"
    by (simp add: compareByPosition_defined)
  then have sorted: "sortBy compareByPosition ?ws = sortBy byRowThenColumn ?ws"
    by (rule sortBy_cong)
  let ?sorted = "sortBy byRowThenColumn ?ws"
  from each have span: "\<forall>w \<in> set ?sorted. 1 \<le> cols (widget_layout w) \<and> 1 \<le> rows (widget_layout w)
      \<and> yOf (widget_layout w) \<le> 999"
    by auto
  from assms(1) have p: "packed ?g [] (map widget_layout ?sorted)"
    by (simp add: isCompact_def)
  have "compactFrom ?g {} ?sorted = map settled ?sorted"
    by (rule compactFrom_stable [OF p _ _ span]) simp_all
  then have 1: "widgetsOf (compactLayout s) = map settled ?sorted"
    by (simp add: widgetsOf_compactLayout sorted)
  have "set (map placement (map settled ?sorted)) = set (map placement ?ws)"
    by (simp add: image_image)
  with 1 show ?thesis by simp
qed


theorem compactLayout_stable_witness:
  "isCompact (grid_cols (grid (dashboardConfig roomy))) (widgetsOf roomy) \<and>
   map placement (widgetsOf roomy) = [(''a'', 0, 0), (''b'', 0, 2)] \<and>
   map placement (widgetsOf (compactLayout roomy)) = [(''a'', 0, 0), (''b'', 0, 2)]"
proof -
  have c: "isCompact (grid_cols (grid (dashboardConfig roomy))) (widgetsOf roomy)"
    by (auto simp: roomy_widgets compact_defs sortBy_def overlaps_def at_def plainLayout_def
        orZero_def Let_def list_all_iff)
  have h: "list_all (\<lambda>w. 1 \<le> cols (widget_layout w) \<and> 1 \<le> rows (widget_layout w)
                      \<and> pos_y (widget_layout w) \<noteq> None \<and> yOf (widget_layout w) < 1000)
             (widgetsOf roomy)"
    by (simp add: roomy_widgets)
  have s: "map placement (map settled (sortBy byRowThenColumn (widgetsOf roomy)))
      = [(''a'', 0, 0), (''b'', 0, 2)]"
    by (simp add: roomy_widgets sortBy_def byRowThenColumn_def placement_def settled_def)
  have p: "map placement (widgetsOf roomy) = [(''a'', 0, 0), (''b'', 0, 2)]"
    by (simp add: roomy_widgets placement_def)
  from compactLayout_stable [OF c h] c s p show ?thesis by simp
qed


end
